theory Spec2Isabelle
  imports Complex_Main
begin

section \<open>Python values, errors and dictionaries\<close>

text \<open>
  The module \<^verbatim>\<open>model_utils.py\<close> is embedded shallowly.  Exceptions are values of
  \<open>error\<close>; a function that may raise returns \<open>error + 'a\<close> with \<open>Inl\<close> the exception.
  Strings are lists of characters, each character standing for one code point below 256.
  Numbers are rationals: the rounding of binary floating point is not modelled.
\<close>

datatype error =
    KeyError | TypeError | IndexError | AttributeError | AssertionError
  | JSONDecodeError | ConnectionError | ProviderError
  | RetryError error

text \<open>A decoded JSON document, which is also the shape of every provider response.  An
  object is an association list standing for a Python dict: keys are looked up with
  \<open>map_of\<close>.\<close>

datatype json =
    JNull | JBool bool | JNum rat | JStr string
  | JArr "json list" | JObj "(string \<times> json) list"

definition bnd :: "error + 'a \<Rightarrow> ('a \<Rightarrow> error + 'b) \<Rightarrow> error + 'b" where
  "bnd x f = (case x of Inl e \<Rightarrow> Inl e | Inr a \<Rightarrow> f a)"

text \<open>\<^verbatim>\<open>d[k]\<close>, \<^verbatim>\<open>d[k] = v\<close>, \<^verbatim>\<open>del d[k]\<close> and \<^verbatim>\<open>k in d\<close> on an insertion-ordered dict.\<close>

definition dict_get :: "('k \<times> 'v) list \<Rightarrow> 'k \<Rightarrow> error + 'v" where
  "dict_get d k = (case map_of d k of None \<Rightarrow> Inl KeyError | Some v \<Rightarrow> Inr v)"

fun dict_set :: "('k \<times> 'v) list \<Rightarrow> 'k \<Rightarrow> 'v \<Rightarrow> ('k \<times> 'v) list" where
  "dict_set [] k v = [(k, v)]"
| "dict_set ((k', v') # d) k v =
     (if k' = k then (k, v) # d else (k', v') # dict_set d k v)"

definition dict_del :: "('k \<times> 'v) list \<Rightarrow> 'k \<Rightarrow> ('k \<times> 'v) list" where
  "dict_del d k = filter (\<lambda>kv. fst kv \<noteq> k) d"

definition dict_has :: "('k \<times> 'v) list \<Rightarrow> 'k \<Rightarrow> bool" where
  "dict_has d k = (map_of d k \<noteq> None)"

text \<open>A turn is a \<^verbatim>\<open>Dict[str, str]\<close>, a prompt a list of turns, as the annotation of
  \<^verbatim>\<open>model_call_wrapper\<close> says.  The prompts and the turns of a batch are taken to be
  pairwise distinct objects (no list or dict is shared between two positions).\<close>

type_synonym message = "(string \<times> string) list"
type_synonym prompt = "message list"

subsection \<open>String operations\<close>

fun starts_with :: "string \<Rightarrow> string \<Rightarrow> bool" where
  "starts_with s [] = True"
| "starts_with [] (p # ps) = False"
| "starts_with (c # s) (p # ps) = (c = p \<and> starts_with s ps)"

text \<open>\<^verbatim>\<open>sub in s\<close> on strings.\<close>

fun str_contains :: "string \<Rightarrow> string \<Rightarrow> bool" where
  "str_contains [] sub = (sub = [])"
| "str_contains (c # s) sub = (starts_with (c # s) sub \<or> str_contains s sub)"

definition lower_char :: "char \<Rightarrow> char" where
  "lower_char c =
     (let n = (of_char c :: nat) in
      if (65 \<le> n \<and> n \<le> 90) \<or> (192 \<le> n \<and> n \<le> 222 \<and> n \<noteq> 215)
      then char_of (n + 32) else c)"

definition lower :: "string \<Rightarrow> string" where
  "lower s = map lower_char s"

text \<open>The characters \<^verbatim>\<open>str.strip()\<close> removes, among the code points below 256.\<close>

definition is_space :: "char \<Rightarrow> bool" where
  "is_space c =
     (let n = (of_char c :: nat) in
      (9 \<le> n \<and> n \<le> 13) \<or> (28 \<le> n \<and> n \<le> 32) \<or> n = 133 \<or> n = 160)"

definition strip :: "string \<Rightarrow> string" where
  "strip s = rev (dropWhile is_space (rev (dropWhile is_space s)))"

subsection \<open>Subscripts and membership on decoded JSON\<close>

text \<open>\<^verbatim>\<open>v[k]\<close> with a string key: only a dict accepts it.\<close>

fun py_getitem :: "json \<Rightarrow> string \<Rightarrow> error + json" where
  "py_getitem (JObj d) k = dict_get d k"
| "py_getitem v k = Inl TypeError"

text \<open>\<^verbatim>\<open>v[0]\<close>: the first element of a list, the first character of a string; a dict
  decoded from JSON has string keys only, so \<open>0\<close> is never one of them.\<close>

fun py_getitem0 :: "json \<Rightarrow> error + json" where
  "py_getitem0 (JArr []) = Inl IndexError"
| "py_getitem0 (JArr (x # xs)) = Inr x"
| "py_getitem0 (JStr []) = Inl IndexError"
| "py_getitem0 (JStr (c # s)) = Inr (JStr [c])"
| "py_getitem0 (JObj d) = Inl KeyError"
| "py_getitem0 v = Inl TypeError"

text \<open>\<^verbatim>\<open>k in v\<close> for a string \<open>k\<close>: key of a dict, element of a list, substring of a
  string; \<^verbatim>\<open>None\<close>, numbers and booleans are not containers.\<close>

fun py_contains :: "string \<Rightarrow> json \<Rightarrow> error + bool" where
  "py_contains k (JObj d) = Inr (dict_has d k)"
| "py_contains k (JArr xs) = Inr (JStr k \<in> set xs)"
| "py_contains k (JStr s) = Inr (str_contains s k)"
| "py_contains k v = Inl TypeError"

subsection \<open>Constants of the module\<close>

definition GPT_COSTS :: "(string \<times> (string \<times> rat) list) list" where
  "GPT_COSTS =
     [(''gpt-4o'', [(''prompt_tokens'', 5 / 1000000), (''completion_tokens'', 15 / 1000000)]),
      (''o1-preview'', [(''prompt_tokens'', 15 / 1000000), (''completion_tokens'', 60 / 1000000)]),
      (''o1'', [(''prompt_tokens'', 15 / 1000000), (''completion_tokens'', 60 / 1000000)])]"

definition CLAUDE_MODELS :: "string list" where
  "CLAUDE_MODELS = [''claude-3-5-sonnet-20241022'']"

subsection \<open>Serialising a prompt\<close>

text \<open>\<^verbatim>\<open>json.dumps\<close> with its defaults on a list of string dicts: separators \<^verbatim>\<open>", "\<close> and
  \<^verbatim>\<open>": "\<close>, keys in insertion order, every character outside \<^verbatim>\<open>' '..'~'\<close> escaped.\<close>

definition hex_digit :: "nat \<Rightarrow> char" where
  "hex_digit n = ''0123456789abcdef'' ! (n mod 16)"

definition escape_char :: "char \<Rightarrow> string" where
  "escape_char c =
     (let n = (of_char c :: nat) in
      if n = 34 then [CHR 0x5C, CHR 0x22]
      else if n = 92 then [CHR 0x5C, CHR 0x5C]
      else if n = 10 then [CHR 0x5C, CHR ''n'']
      else if n = 13 then [CHR 0x5C, CHR ''r'']
      else if n = 9 then [CHR 0x5C, CHR ''t'']
      else if n = 12 then [CHR 0x5C, CHR ''f'']
      else if n = 8 then [CHR 0x5C, CHR ''b'']
      else if n < 32 \<or> 126 < n
        then [CHR 0x5C, CHR ''u'', CHR ''0'', CHR ''0'', hex_digit (n div 16), hex_digit n]
      else [c])"

definition dumps_str :: "string \<Rightarrow> string" where
  "dumps_str s = [CHR 0x22] @ concat (map escape_char s) @ [CHR 0x22]"

fun join :: "string \<Rightarrow> string list \<Rightarrow> string" where
  "join sep [] = []"
| "join sep [x] = x"
| "join sep (x # y # ys) = x @ sep @ join sep (y # ys)"

definition dumps_message :: "message \<Rightarrow> string" where
  "dumps_message m =
     ''{'' @ join '', '' (map (\<lambda>kv. dumps_str (fst kv) @ '': '' @ dumps_str (snd kv)) m) @ ''}''"

definition jsonify_prompt :: "prompt \<Rightarrow> string" where
  "jsonify_prompt p = ''['' @ join '', '' (map dumps_message p) @ '']''"

section \<open>The environment\<close>

text \<open>
  A line of the cache file is identified with what \<^verbatim>\<open>json.loads\<close> makes of it: a decode
  error, or the decoded document.  This takes \<^verbatim>\<open>json.loads (json.dumps v) = v\<close> for
  granted, and that \<^verbatim>\<open>json.dumps\<close> never emits a line break.  Opening and writing a
  file always succeed.
\<close>

datatype line = Undecodable | Decoded json

datatype header = OPENAI_HEADER | ANTHROPIC_HEADER | NoHeader

text \<open>What the module does to the outside: HTTP requests, Gemini chat messages, and the
  sleeps of the retry decorators.  \<open>WaitRandomExponential k\<close> is the random wait, capped
  at 60, after failed attempt \<open>k\<close>.\<close>

datatype event =
    HttpPost header string json
  | GeminiSend string "message list" message
  | WaitFixed nat
  | WaitRandomExponential nat

record world =
  fs :: "string \<rightharpoonup> line list"
  trace :: "event list"

datatype http_reply = Refused | NotJson | Body json

text \<open>The providers: any function of the number of events so far and of the request.
  \<open>Refused\<close> is \<^verbatim>\<open>requests.post\<close> raising, \<open>NotJson\<close> is \<^verbatim>\<open>response.json()\<close> raising.\<close>

record env =
  http_post :: "nat \<Rightarrow> header \<Rightarrow> string \<Rightarrow> json \<Rightarrow> http_reply"
  gemini_send :: "nat \<Rightarrow> string \<Rightarrow> message list \<Rightarrow> message \<Rightarrow> error + string"

definition log :: "event \<Rightarrow> world \<Rightarrow> world" where
  "log e w = w\<lparr>trace := trace w @ [e]\<rparr>"

definition append_line :: "string \<Rightarrow> line \<Rightarrow> world \<Rightarrow> world" where
  "append_line file l w =
     w\<lparr>fs := (fs w)(file \<mapsto> (case fs w file of None \<Rightarrow> [] | Some ls \<Rightarrow> ls) @ [l])\<rparr>"

subsection \<open>The retry decorator\<close>

text \<open>\<^verbatim>\<open>tenacity.retry\<close> with \<^verbatim>\<open>stop_after_attempt\<close>: the body runs; any exception is
  followed by a wait and another attempt, until the attempt with the maximal number has
  failed, and then \<^verbatim>\<open>RetryError\<close> wraps that last failure.  \<open>retry_loop left k\<close> is at
  attempt \<open>k\<close> with \<open>left\<close> more attempts allowed after it.\<close>

fun retry_loop ::
  "nat \<Rightarrow> nat \<Rightarrow> (nat \<Rightarrow> 's \<Rightarrow> 's) \<Rightarrow> ('s \<Rightarrow> (error + 'a) \<times> 's) \<Rightarrow> 's \<Rightarrow> (error + 'a) \<times> 's" where
  "retry_loop 0 k pause body s =
     (case body s of
        (Inr r, s') \<Rightarrow> (Inr r, s')
      | (Inl e, s') \<Rightarrow> (Inl (RetryError e), s'))"
| "retry_loop (Suc left) k pause body s =
     (case body s of
        (Inr r, s') \<Rightarrow> (Inr r, s')
      | (Inl e, s') \<Rightarrow> retry_loop left (Suc k) pause body (pause k s'))"

definition retry ::
  "nat \<Rightarrow> (nat \<Rightarrow> 's \<Rightarrow> 's) \<Rightarrow> ('s \<Rightarrow> (error + 'a) \<times> 's) \<Rightarrow> 's \<Rightarrow> (error + 'a) \<times> 's" where
  "retry stop_after_attempt pause body s = retry_loop (stop_after_attempt - 1) 1 pause body s"

subsection \<open>The request functions\<close>

definition openai_attempt :: "env \<Rightarrow> string \<Rightarrow> json \<Rightarrow> world \<Rightarrow> (error + json) \<times> world" where
  "openai_attempt env model_url data w =
     (let w' = log (HttpPost OPENAI_HEADER model_url data) w in
      case http_post env (length (trace w)) OPENAI_HEADER model_url data of
        Refused \<Rightarrow> (Inl ConnectionError, w')
      | NotJson \<Rightarrow> (Inl JSONDecodeError, w')
      | Body response \<Rightarrow>
          (case py_contains ''choices'' response of
             Inl e \<Rightarrow> (Inl e, w')
           | Inr b \<Rightarrow> if b then (Inr response, w') else (Inl AssertionError, w')))"

definition openai_request :: "env \<Rightarrow> string \<Rightarrow> json \<Rightarrow> world \<Rightarrow> (error + json) \<times> world" where
  "openai_request env model_url data =
     retry 10 (\<lambda>k. log (WaitRandomExponential k)) (openai_attempt env model_url data)"

definition claude_attempt :: "env \<Rightarrow> string \<Rightarrow> json \<Rightarrow> world \<Rightarrow> (error + json) \<times> world" where
  "claude_attempt env model_url data w =
     (let w' = log (HttpPost ANTHROPIC_HEADER model_url data) w in
      case http_post env (length (trace w)) ANTHROPIC_HEADER model_url data of
        Refused \<Rightarrow> (Inl ConnectionError, w')
      | NotJson \<Rightarrow> (Inl JSONDecodeError, w')
      | Body response \<Rightarrow>
          (case py_contains ''content'' response of
             Inl e \<Rightarrow> (Inl e, w')
           | Inr b \<Rightarrow> if b then (Inr response, w') else (Inl AssertionError, w')))"

definition claude_request :: "env \<Rightarrow> string \<Rightarrow> json \<Rightarrow> world \<Rightarrow> (error + json) \<times> world" where
  "claude_request env model_url data =
     retry 10 (\<lambda>k. log (WaitRandomExponential k)) (claude_attempt env model_url data)"

section \<open>Preprocessing for Gemma\<close>

text \<open>The separator \<^verbatim>\<open>"\n\n"\<close>.\<close>

definition blank_line :: string where
  "blank_line = [CHR 0x0A, CHR 0x0A]"

definition py_last :: "'a list \<Rightarrow> error + 'a" where
  "py_last xs = (case rev xs of [] \<Rightarrow> Inl IndexError | x # _ \<Rightarrow> Inr x)"

text \<open>The first loop of \<^verbatim>\<open>process_gemma_messages\<close>.  \<open>processed\<close> and \<open>last_role\<close> are the
  loop's variables and \<open>i\<close> the index of \<^verbatim>\<open>enumerate\<close>.  A message that is not a system
  message is appended as the caller's own dict, so the later \<^verbatim>\<open>+=\<close> on
  \<^verbatim>\<open>processed_messages[-1]\<close> writes into the caller's list too: \<open>shared\<close> is the index
  of the caller's message that is the last processed one, if it is one, and \<open>inputs\<close> the
  caller's list as it is now.\<close>

fun combine_loop ::
  "message list \<Rightarrow> nat \<Rightarrow> message list \<Rightarrow> string option \<Rightarrow> nat option \<Rightarrow> message list
   \<Rightarrow> (error + message list) \<times> message list" where
  "combine_loop [] i processed last_role shared inputs = (Inr processed, inputs)"
| "combine_loop (message # rest) i processed last_role shared inputs =
     (case dict_get message ''role'' of
        Inl e \<Rightarrow> (Inl e, inputs)
      | Inr role \<Rightarrow>
          (case (if role = ''system''
                 then bnd (dict_get message ''content'')
                        (\<lambda>c. Inr (''user'', [(''role'', ''user''), (''content'', c)], None))
                 else Inr (role, message, Some i)) of
             Inl e \<Rightarrow> (Inl e, inputs)
           | Inr (current_role, message', obj) \<Rightarrow>
               if Some current_role = last_role then
                 (case bnd (py_last processed) (\<lambda>prev.
                       bnd (dict_get prev ''content'') (\<lambda>old.
                       bnd (dict_get message' ''content'') (\<lambda>c.
                       Inr (dict_set prev ''content'' (old @ blank_line @ c))))) of
                    Inl e \<Rightarrow> (Inl e, inputs)
                  | Inr merged \<Rightarrow>
                      combine_loop rest (Suc i) (butlast processed @ [merged]) last_role shared
                        (case shared of None \<Rightarrow> inputs | Some j \<Rightarrow> inputs[j := merged]))
               else combine_loop rest (Suc i) (processed @ [message']) (Some current_role) obj inputs))"

text \<open>The second loop, over \<^verbatim>\<open>processed_messages\<close>, building \<^verbatim>\<open>final_messages\<close>.\<close>

fun alternate_loop :: "message list \<Rightarrow> nat \<Rightarrow> message list \<Rightarrow> error + message list" where
  "alternate_loop [] i final = Inr final"
| "alternate_loop (message # rest) i final =
     (case (if i = 0
            then bnd (dict_get message ''role'') (\<lambda>r.
                   Inr (if r \<noteq> ''user''
                        then final @ [[(''role'', ''user''), (''content'', ''Hello'')]]
                        else final))
            else Inr final) of
        Inl e \<Rightarrow> Inl e
      | Inr final1 \<Rightarrow>
          (case (if 0 < i
                 then bnd (dict_get message ''role'') (\<lambda>r.
                      bnd (py_last final1) (\<lambda>prev.
                      bnd (dict_get prev ''role'') (\<lambda>pr.
                        Inr (if r = pr
                             then (if r = ''user''
                                   then final1 @ [[(''role'', ''assistant''), (''content'', ''I understand.'')]]
                                   else final1 @ [[(''role'', ''user''), (''content'', ''Please continue.'')]])
                             else final1))))
                 else Inr final1) of
             Inl e \<Rightarrow> Inl e
           | Inr final2 \<Rightarrow> alternate_loop rest (Suc i) (final2 @ [message])))"

text \<open>The result, and the caller's message list after the call.\<close>

definition process_gemma_messages :: "message list \<Rightarrow> (error + message list) \<times> message list" where
  "process_gemma_messages messages =
     (case combine_loop messages 0 [] None None messages of
        (Inl e, inputs) \<Rightarrow> (Inl e, inputs)
      | (Inr processed, inputs) \<Rightarrow> (alternate_loop processed 0 [], inputs))"

section \<open>The model-call wrapper\<close>

text \<open>The values the first and third parameter of \<^verbatim>\<open>model_call_wrapper\<close> are bound to
  in this module: a string or a batch of prompts.  Iterating a batch gives its prompts,
  iterating a string its characters.\<close>

datatype pyval = PyStr string | PyBatch "prompt list"

datatype msgs = Turns prompt | Chars string

type_synonym generation_config = "(string \<times> json) list"

definition py_truthy :: "pyval \<Rightarrow> bool" where
  "py_truthy v = (case v of PyStr s \<Rightarrow> s \<noteq> [] | PyBatch b \<Rightarrow> b \<noteq> [])"

definition py_iter :: "pyval \<Rightarrow> msgs list" where
  "py_iter v = (case v of PyStr s \<Rightarrow> map (\<lambda>c. Chars [c]) s | PyBatch b \<Rightarrow> map Turns b)"

fun turns_of :: "msgs \<Rightarrow> prompt list" where
  "turns_of (Turns p) = [p]"
| "turns_of (Chars s) = []"

text \<open>The argument after its elements were mutated in place: strings are immutable.\<close>

definition py_store :: "pyval \<Rightarrow> msgs list \<Rightarrow> pyval" where
  "py_store v ms = (case v of PyStr s \<Rightarrow> PyStr s | PyBatch b \<Rightarrow> PyBatch (concat (map turns_of ms)))"

definition json_of_messages :: "message list \<Rightarrow> json" where
  "json_of_messages p = JArr (map (\<lambda>m. JObj (map (\<lambda>kv. (fst kv, JStr (snd kv))) m)) p)"

definition json_of_msgs :: "msgs \<Rightarrow> json" where
  "json_of_msgs m = (case m of Turns p \<Rightarrow> json_of_messages p | Chars s \<Rightarrow> JStr s)"

text \<open>\<^verbatim>\<open>{"model": model_name, "messages": messages, **generation_config}\<close>\<close>

definition request_data :: "string \<Rightarrow> json \<Rightarrow> generation_config \<Rightarrow> json" where
  "request_data model_name messages generation_config =
     JObj (foldl (\<lambda>d kv. dict_set d (fst kv) (snd kv))
             [(''model'', JStr model_name), (''messages'', messages)] generation_config)"

text \<open>\<^verbatim>\<open>for message in messages: if message["role"] == "system": message["role"] = "user"\<close>,
  with the list as the loop leaves it when a message has no role.\<close>

fun system_to_user :: "message list \<Rightarrow> error option \<times> message list" where
  "system_to_user [] = (None, [])"
| "system_to_user (message # rest) =
     (case dict_get message ''role'' of
        Inl e \<Rightarrow> (Some e, message # rest)
      | Inr role \<Rightarrow>
          (case system_to_user rest of
             (err, rest') \<Rightarrow>
               ((err, (if role = ''system'' then dict_set message ''role'' ''user'' else message) # rest'))))"

text \<open>The loop of the Gemini adapter, which also renames \<^verbatim>\<open>content\<close> to \<^verbatim>\<open>parts\<close>.\<close>

fun gemini_prepare :: "message list \<Rightarrow> error option \<times> message list" where
  "gemini_prepare [] = (None, [])"
| "gemini_prepare (message # rest) =
     (case dict_get message ''role'' of
        Inl e \<Rightarrow> (Some e, message # rest)
      | Inr role \<Rightarrow>
          (let m1 = (if role = ''system'' then dict_set message ''role'' ''user'' else message);
               m2 = (case map_of m1 ''content'' of
                       None \<Rightarrow> m1
                     | Some c \<Rightarrow> dict_del (dict_set m1 ''parts'' c) ''content'')
           in case gemini_prepare rest of (err, rest') \<Rightarrow> (err, m2 # rest')))"

text \<open>\<^verbatim>\<open>get_batch_responses\<close>.  A response function takes one element of the batch and
  returns its result, the element after the call, and the world.  The sequential loop stops
  at the first exception.  The thread pool runs every call and then raises the first
  exception in batch order; its calls are taken in batch order, one schedule among the
  possible ones.\<close>

fun run_sequential ::
  "('m \<Rightarrow> world \<Rightarrow> (error + json) \<times> 'm \<times> world) \<Rightarrow> 'm list \<Rightarrow> world
   \<Rightarrow> (error + json list) \<times> 'm list \<times> world" where
  "run_sequential get_response [] w = (Inr [], [], w)"
| "run_sequential get_response (m # ms) w =
     (case get_response m w of
        (Inl e, m', w') \<Rightarrow> (Inl e, m' # ms, w')
      | (Inr r, m', w') \<Rightarrow>
          (case run_sequential get_response ms w' of
             (Inl e, ms', w'') \<Rightarrow> (Inl e, m' # ms', w'')
           | (Inr rs, ms', w'') \<Rightarrow> (Inr (r # rs), m' # ms', w'')))"

fun run_parallel ::
  "('m \<Rightarrow> world \<Rightarrow> (error + json) \<times> 'm \<times> world) \<Rightarrow> 'm list \<Rightarrow> world
   \<Rightarrow> (error + json list) \<times> 'm list \<times> world" where
  "run_parallel get_response [] w = (Inr [], [], w)"
| "run_parallel get_response (m # ms) w =
     (case get_response m w of
        (res, m', w') \<Rightarrow>
          (case run_parallel get_response ms w' of
             (rest, ms', w'') \<Rightarrow>
               (bnd res (\<lambda>r. bnd rest (\<lambda>rs. Inr (r # rs))), m' # ms', w'')))"

definition get_batch_responses ::
  "bool \<Rightarrow> ('m \<Rightarrow> world \<Rightarrow> (error + json) \<times> 'm \<times> world) \<Rightarrow> 'm list \<Rightarrow> world
   \<Rightarrow> (error + json list) \<times> 'm list \<times> world" where
  "get_batch_responses parallel_model_calls get_response batch_messages w =
     (if \<not> parallel_model_calls \<or> length batch_messages \<le> 1
      then run_sequential get_response batch_messages w
      else run_parallel get_response batch_messages w)"

subsection \<open>The four adapters\<close>

definition openai_get_response ::
  "env \<Rightarrow> string \<Rightarrow> string \<Rightarrow> generation_config \<Rightarrow> msgs \<Rightarrow> world \<Rightarrow> (error + json) \<times> msgs \<times> world" where
  "openai_get_response env model_name model_url generation_config messages w =
     (case openai_request env model_url
             (request_data model_name (json_of_msgs messages) generation_config) w of
        (response, w') \<Rightarrow> (response, messages, w'))"

text \<open>Subscripting a character with \<^verbatim>\<open>"role"\<close> is a \<^verbatim>\<open>TypeError\<close>; \<^verbatim>\<open>messages[-1]\<close> of
  an empty sequence is an \<^verbatim>\<open>IndexError\<close>.\<close>

definition gemini_get_response ::
  "env \<Rightarrow> string \<Rightarrow> msgs \<Rightarrow> world \<Rightarrow> (error + json) \<times> msgs \<times> world" where
  "gemini_get_response env model_url messages w =
     (case messages of
        Chars s \<Rightarrow> (Inl (if s = [] then IndexError else TypeError), Chars s, w)
      | Turns p \<Rightarrow>
          (case gemini_prepare p of
             (Some e, p') \<Rightarrow> (Inl e, Turns p', w)
           | (None, p') \<Rightarrow>
               (case rev p' of
                  [] \<Rightarrow> (Inl IndexError, Turns p', w)
                | final # history \<Rightarrow>
                    (case gemini_send env (length (trace w)) model_url (rev history) final of
                       Inl e \<Rightarrow> (Inl e, Turns p', log (GeminiSend model_url (rev history) final) w)
                     | Inr text \<Rightarrow>
                         (Inr (JStr text), Turns p',
                          log (GeminiSend model_url (rev history) final) w)))))"

definition gemma_get_response ::
  "env \<Rightarrow> string \<Rightarrow> string \<Rightarrow> msgs \<Rightarrow> world \<Rightarrow> (error + json) \<times> msgs \<times> world" where
  "gemma_get_response env model_name model_url messages w =
     (case (case messages of
              Turns p \<Rightarrow> (case process_gemma_messages p of (r, p') \<Rightarrow> (r, Turns p'))
            | Chars s \<Rightarrow> (if s = [] then Inr [] else Inl TypeError, Chars s)) of
        (Inl e, messages') \<Rightarrow> (Inl e, messages', w)
      | (Inr final_messages, messages') \<Rightarrow>
          (let data = JObj [(''model'', JStr model_name),
                            (''messages'', json_of_messages final_messages),
                            (''temperature'', JNum 0),
                            (''max_tokens'', JNum 512)];
               w' = log (HttpPost NoHeader model_url data) w
           in case http_post env (length (trace w)) NoHeader model_url data of
                Refused \<Rightarrow> (Inl ConnectionError, messages', w')
              | NotJson \<Rightarrow> (Inl JSONDecodeError, messages', w')
              | Body response_json \<Rightarrow>
                  (bnd (py_getitem response_json ''choices'') (\<lambda>choices.
                   bnd (py_getitem0 choices) (\<lambda>choice.
                   bnd (py_getitem choice ''message'') (\<lambda>message.
                   bnd (py_getitem message ''content'') (\<lambda>content.
                     case content of
                       JStr s \<Rightarrow> Inr (JStr (strip s))
                     | _ \<Rightarrow> Inl AttributeError)))),
                   messages', w')))"

definition claude_get_response ::
  "env \<Rightarrow> string \<Rightarrow> string \<Rightarrow> generation_config \<Rightarrow> msgs \<Rightarrow> world \<Rightarrow> (error + json) \<times> msgs \<times> world" where
  "claude_get_response env model_name model_url generation_config messages w =
     (case (case messages of
              Turns p \<Rightarrow> (case system_to_user p of (err, p') \<Rightarrow> (err, Turns p'))
            | Chars s \<Rightarrow> (if s = [] then None else Some TypeError, Chars s)) of
        (Some e, messages') \<Rightarrow> (Inl e, messages', w)
      | (None, messages') \<Rightarrow>
          (case claude_request env model_url
                  (request_data model_name (json_of_msgs messages') generation_config) w of
             (response, w') \<Rightarrow> (response, messages', w')))"

subsection \<open>Selection of the adapter\<close>

text \<open>One attempt of \<^verbatim>\<open>model_call_wrapper\<close>.  The state is the batch argument, whose
  prompts the adapters mutate, and the world.  The result \<open>None\<close> is Python's \<^verbatim>\<open>None\<close>,
  returned when the function body ends without a \<^verbatim>\<open>return\<close>.  A list as
  \<^verbatim>\<open>model_name\<close> cannot be hashed, so \<^verbatim>\<open>model_name in GPT_COSTS\<close> raises.\<close>

definition model_call_wrapper_attempt ::
  "env \<Rightarrow> pyval \<Rightarrow> string \<Rightarrow> generation_config \<Rightarrow> bool \<Rightarrow> pyval \<times> world
   \<Rightarrow> (error + json list option) \<times> pyval \<times> world" where
  "model_call_wrapper_attempt env model_name model_url generation_config parallel_model_calls st =
     (case st of (batch_messages, w) \<Rightarrow>
        if \<not> py_truthy batch_messages then (Inr (Some []), batch_messages, w)
        else
          (case model_name of
             PyBatch b \<Rightarrow> (Inl TypeError, batch_messages, w)
           | PyStr name \<Rightarrow>
               (let run = (\<lambda>get_response.
                      case get_batch_responses parallel_model_calls get_response
                             (py_iter batch_messages) w of
                        (res, ms', w') \<Rightarrow> (bnd res (\<lambda>rs. Inr (Some rs)), py_store batch_messages ms', w'))
                in if dict_has GPT_COSTS name
                     then run (openai_get_response env name model_url generation_config)
                   else if str_contains (lower name) ''gemini''
                     then run (gemini_get_response env model_url)
                   else if str_contains (lower name) ''gemma''
                     then run (gemma_get_response env name model_url)
                   else if name \<in> set CLAUDE_MODELS
                     then run (claude_get_response env name model_url generation_config)
                   else (Inr None, batch_messages, w))))"

definition model_call_wrapper ::
  "env \<Rightarrow> pyval \<Rightarrow> string \<Rightarrow> pyval \<Rightarrow> generation_config \<Rightarrow> bool \<Rightarrow> world
   \<Rightarrow> (error + json list option) \<times> pyval \<times> world" where
  "model_call_wrapper env model_name model_url batch_messages generation_config parallel_model_calls w =
     retry 10 (\<lambda>k st. (fst st, log (WaitFixed 20) (snd st)))
       (model_call_wrapper_attempt env model_name model_url generation_config parallel_model_calls)
       (batch_messages, w)"

section \<open>The cache\<close>

type_synonym cache = "json \<rightharpoonup> json"

text \<open>A dict key must be hashable; \<^verbatim>\<open>True\<close> and \<^verbatim>\<open>1\<close> are the same key.\<close>

fun dict_key :: "json \<Rightarrow> error + json" where
  "dict_key (JArr xs) = Inl TypeError"
| "dict_key (JObj d) = Inl TypeError"
| "dict_key (JBool b) = Inr (JNum (if b then 1 else 0))"
| "dict_key v = Inr v"

text \<open>The loop of \<^verbatim>\<open>load_cache_file\<close>.  In \<^verbatim>\<open>cache[line["prompt"]] = line["completion"]\<close>
  the right-hand side is evaluated first.\<close>

fun replay :: "line list \<Rightarrow> cache \<Rightarrow> error + cache" where
  "replay [] cache = Inr cache"
| "replay (l # ls) cache =
     (case l of
        Undecodable \<Rightarrow> Inl JSONDecodeError
      | Decoded line \<Rightarrow>
          (case bnd (py_getitem line ''completion'') (\<lambda>completion.
                bnd (py_getitem line ''prompt'') (\<lambda>prompt.
                bnd (dict_key prompt) (\<lambda>k. Inr (cache(k \<mapsto> completion))))) of
             Inl e \<Rightarrow> Inl e
           | Inr cache' \<Rightarrow> replay ls cache'))"

definition load_cache_file :: "world \<Rightarrow> string \<Rightarrow> error + cache" where
  "load_cache_file w cache_file =
     (case fs w cache_file of
        None \<Rightarrow> Inr Map.empty
      | Some ls \<Rightarrow> replay ls Map.empty)"

section \<open>Cached generation\<close>

text \<open>The loop of \<^verbatim>\<open>cached_generate\<close> for the reasoning models, over the prompts of the
  batch; it stops at a turn without a role.\<close>

fun system_to_user_batch :: "prompt list \<Rightarrow> error option \<times> prompt list" where
  "system_to_user_batch [] = (None, [])"
| "system_to_user_batch (prompt # rest) =
     (case system_to_user prompt of
        (Some e, prompt') \<Rightarrow> (Some e, prompt' # rest)
      | (None, prompt') \<Rightarrow>
          (case system_to_user_batch rest of (err, rest') \<Rightarrow> (err, prompt' # rest')))"

text \<open>The loop that builds \<^verbatim>\<open>new_batch_prompts\<close>.  That list holds references to prompts of
  \<^verbatim>\<open>batch_prompts\<close>: here, their positions in the batch, from \<open>i\<close> on.\<close>

fun find_misses :: "string \<Rightarrow> cache \<Rightarrow> prompt list \<Rightarrow> nat \<Rightarrow> error + nat list" where
  "find_misses model_name cache [] i = Inr []"
| "find_misses model_name cache (prompt # rest) i =
     (case cache (JStr (jsonify_prompt prompt)) of
        None \<Rightarrow> bnd (find_misses model_name cache rest (Suc i)) (\<lambda>r. Inr (i # r))
      | Some v \<Rightarrow>
          if dict_has GPT_COSTS model_name
          then bnd (py_contains ''choices'' v) (\<lambda>b.
               bnd (find_misses model_name cache rest (Suc i)) (\<lambda>r.
                 Inr (if \<not> b then i # r else r)))
          else find_misses model_name cache rest (Suc i))"

text \<open>The prompts of the batch after the dispatched ones were mutated by the adapters.\<close>

fun write_back :: "nat list \<Rightarrow> prompt list \<Rightarrow> prompt list \<Rightarrow> prompt list" where
  "write_back (i # is) (p # ps) batch = write_back is ps (batch[i := p])"
| "write_back is ps batch = batch"

text \<open>The loop over \<^verbatim>\<open>zip(new_batch_prompts, batch_responses)\<close>: one entry in the cache and
  one line appended to the file for each pair.\<close>

fun persist :: "string \<Rightarrow> (prompt \<times> json) list \<Rightarrow> cache \<times> world \<Rightarrow> cache \<times> world" where
  "persist cache_file [] st = st"
| "persist cache_file ((prompt, response) # rest) st =
     (let jsonified_prompt = jsonify_prompt prompt;
          cache = (fst st)(JStr jsonified_prompt \<mapsto> response);
          w = append_line cache_file
                (Decoded (JObj [(''prompt'', JStr jsonified_prompt), (''completion'', response)]))
                (snd st)
      in persist cache_file rest (cache, w))"

text \<open>\<^verbatim>\<open>usage * price\<close> with a float price: numbers and booleans multiply.\<close>

fun py_mul :: "json \<Rightarrow> rat \<Rightarrow> error + rat" where
  "py_mul (JNum n) price = Inr (n * price)"
| "py_mul (JBool b) price = Inr ((if b then 1 else 0) * price)"
| "py_mul v price = Inl TypeError"

text \<open>\<^verbatim>\<open>for token_type in GPT_COSTS[model_name]: cost += ...\<close> on one cached response.\<close>

fun add_costs :: "(string \<times> rat) list \<Rightarrow> json \<Rightarrow> rat \<Rightarrow> error + rat" where
  "add_costs [] v cost = Inr cost"
| "add_costs ((token_type, price) # rest) v cost =
     bnd (py_getitem v ''usage'') (\<lambda>usage.
     bnd (py_getitem usage token_type) (\<lambda>n.
     bnd (py_mul n price) (\<lambda>x. add_costs rest v (cost + x))))"

text \<open>The last loop: the text of every prompt of the batch and the accumulated cost.\<close>

fun extract_loop ::
  "string \<Rightarrow> cache \<Rightarrow> prompt list \<Rightarrow> json list \<Rightarrow> rat \<Rightarrow> error + json list \<times> rat" where
  "extract_loop model_name cache [] batch_responses cost = Inr (batch_responses, cost)"
| "extract_loop model_name cache (prompt # rest) batch_responses cost =
     (case (case cache (JStr (jsonify_prompt prompt)) of
              None \<Rightarrow> Inl KeyError
            | Some v \<Rightarrow>
                (case map_of GPT_COSTS model_name of
                   Some prices \<Rightarrow>
                     bnd (py_getitem v ''choices'') (\<lambda>choices.
                     bnd (py_getitem0 choices) (\<lambda>choice.
                     bnd (py_getitem choice ''message'') (\<lambda>message.
                     bnd (py_getitem message ''content'') (\<lambda>text_output.
                     bnd (add_costs prices v cost) (\<lambda>cost'. Inr (text_output, cost'))))))
                 | None \<Rightarrow>
                     if model_name \<in> set CLAUDE_MODELS
                     then bnd (py_getitem v ''content'') (\<lambda>content.
                          bnd (py_getitem0 content) (\<lambda>block.
                          bnd (py_getitem block ''text'') (\<lambda>text_output.
                            Inr (text_output, cost))))
                     else Inr (v, cost))) of
        Inl e \<Rightarrow> Inl e
      | Inr (text_output, cost') \<Rightarrow>
          extract_loop model_name cache rest (batch_responses @ [text_output]) cost')"

fun batch_of :: "pyval \<Rightarrow> prompt list" where
  "batch_of (PyBatch b) = b"
| "batch_of (PyStr s) = []"

text \<open>What \<^verbatim>\<open>cached_generate\<close> returns: without a cache the value of the wrapper, otherwise
  the pair of the texts and the cost.\<close>

datatype generated = Raw "json list option" | Texts "json list" rat

text \<open>\<^verbatim>\<open>cached_generate\<close> in three parts.  Beside the result each part gives the objects
  the caller still holds: the batch of prompts, the cache, and the world.

  Lines 308 to 313: the batch and the generation config as they are when the test on the
  cache is reached, or the exception of a turn without a role.\<close>

definition reasoning_model_rewrite ::
  "string \<Rightarrow> prompt list \<Rightarrow> generation_config \<Rightarrow> error option \<times> prompt list \<times> generation_config" where
  "reasoning_model_rewrite model_name batch_prompts generation_config =
     (if starts_with model_name ''o1''
      then (case system_to_user_batch batch_prompts of (err, b) \<Rightarrow> (err, b, []))
      else (None, batch_prompts, generation_config))"

text \<open>Lines 330 to 366: the dispatch of \<^verbatim>\<open>new_batch_prompts\<close>, given as the positions
  \<open>misses\<close> in the batch, and everything after it.  \<^verbatim>\<open>zip\<close> of a list and \<^verbatim>\<open>None\<close> is a
  \<^verbatim>\<open>TypeError\<close>.\<close>

definition dispatch_misses ::
  "env \<Rightarrow> prompt list \<Rightarrow> string \<Rightarrow> string \<Rightarrow> cache \<Rightarrow> string \<Rightarrow> generation_config \<Rightarrow> bool
   \<Rightarrow> nat list \<Rightarrow> world \<Rightarrow> (error + generated) \<times> prompt list \<times> cache option \<times> world" where
  "dispatch_misses env batch_prompts model_name model_url c cache_file generation_config
       parallel_model_calls misses w =
     (case model_call_wrapper env (PyStr model_name) model_url
             (PyBatch (map (\<lambda>i. batch_prompts ! i) misses))
             generation_config parallel_model_calls w of
        (res, arg, w') \<Rightarrow>
          (let new_batch_prompts = batch_of arg;
               batch2 = write_back misses new_batch_prompts batch_prompts
           in case res of
                Inl e \<Rightarrow> (Inl e, batch2, Some c, w')
              | Inr None \<Rightarrow> (Inl TypeError, batch2, Some c, w')
              | Inr (Some batch_responses) \<Rightarrow>
                  (case persist cache_file (zip new_batch_prompts batch_responses) (c, w') of
                     (c', w'') \<Rightarrow>
                       if length batch_responses \<noteq> length new_batch_prompts
                       then (Inl AssertionError, batch2, Some c', w'')
                       else (bnd (extract_loop model_name c' batch2 [] 0)
                               (\<lambda>r. Inr (Texts (fst r) (snd r))),
                             batch2, Some c', w''))))"

text \<open>The whole function.  Without a cache the arguments of the wrapper are passed by
  position, batch first, as line 315 has them.\<close>

definition cached_generate ::
  "env \<Rightarrow> prompt list \<Rightarrow> string \<Rightarrow> string \<Rightarrow> cache option \<Rightarrow> string \<Rightarrow> generation_config \<Rightarrow> bool
   \<Rightarrow> world \<Rightarrow> (error + generated) \<times> prompt list \<times> cache option \<times> world" where
  "cached_generate env batch_prompts model_name model_url cache cache_file generation_config
       parallel_model_calls w =
     (case reasoning_model_rewrite model_name batch_prompts generation_config of
        (Some e, batch1, config1) \<Rightarrow> (Inl e, batch1, cache, w)
      | (None, batch1, config1) \<Rightarrow>
          (case cache of
             None \<Rightarrow>
               (case model_call_wrapper env (PyBatch batch1) model_name (PyStr model_url)
                       config1 parallel_model_calls w of
                  (res, arg, w') \<Rightarrow> (bnd res (\<lambda>r. Inr (Raw r)), batch1, None, w'))
           | Some c \<Rightarrow>
               (case find_misses model_name c batch1 0 of
                  Inl e \<Rightarrow> (Inl e, batch1, Some c, w)
                | Inr misses \<Rightarrow>
                    dispatch_misses env batch1 model_name model_url c cache_file config1
                      parallel_model_calls misses w)))"

section \<open>Notions of the specification\<close>

text \<open>The definitions of this section follow the words of the specification; the theorems
  below compare them with the functions above.\<close>

subsection \<open>Observations on a trace\<close>

fun is_post :: "event \<Rightarrow> bool" where
  "is_post (HttpPost h u d) = True"
| "is_post e = False"

fun is_network :: "event \<Rightarrow> bool" where
  "is_network (HttpPost h u d) = True"
| "is_network (GeminiSend u h m) = True"
| "is_network e = False"

text \<open>The durations of the fixed waits of a trace, in order.\<close>

fun fixed_waits :: "event list \<Rightarrow> nat list" where
  "fixed_waits [] = []"
| "fixed_waits (WaitFixed d # es) = d # fixed_waits es"
| "fixed_waits (e # es) = fixed_waits es"

text \<open>The second world is the first with some events added to its trace, the added events
  satisfying \<open>P\<close>; the files are the same.\<close>

definition only_adds :: "(event list \<Rightarrow> bool) \<Rightarrow> world \<Rightarrow> world \<Rightarrow> bool" where
  "only_adds P w w' = (\<exists>new. w' = w\<lparr>trace := trace w @ new\<rparr> \<and> P new)"

definition no_fixed_wait :: "event list \<Rightarrow> bool" where
  "no_fixed_wait new = (fixed_waits new = [])"

text \<open>The state in which attempt number \<open>n + 1\<close> of a retried function starts when the \<open>n\<close>
  attempts before it have failed: the failed attempt number \<open>k\<close> is followed by the pause
  of \<open>k\<close>, and the next attempt starts where the pause ends.\<close>

fun before_attempt :: "(nat \<Rightarrow> 's \<Rightarrow> 's) \<Rightarrow> ('s \<Rightarrow> (error + 'a) \<times> 's) \<Rightarrow> nat \<Rightarrow> 's \<Rightarrow> 's" where
  "before_attempt pause body 0 s = s"
| "before_attempt pause body (Suc n) s =
     pause (Suc n) (snd (body (before_attempt pause body n s)))"

text \<open>A wait of \<open>d\<close> between two attempts of the wrapper: the batch is untouched and the
  trace gets the event \<open>WaitFixed d\<close>.\<close>

definition wait_fixed :: "nat \<Rightarrow> pyval \<times> world \<Rightarrow> pyval \<times> world" where
  "wait_fixed d st = (fst st, (snd st)\<lparr>trace := trace (snd st) @ [WaitFixed d]\<rparr>)"

text \<open>A random exponential wait after the failed attempt \<open>k\<close> of a request function.\<close>

definition wait_random_exponential :: "nat \<Rightarrow> world \<Rightarrow> world" where
  "wait_random_exponential k w = w\<lparr>trace := trace w @ [WaitRandomExponential k]\<rparr>"

text \<open>The lines of a file, none when it does not exist.\<close>

definition file_lines :: "world \<Rightarrow> string \<Rightarrow> line list" where
  "file_lines w file = (case fs w file of None \<Rightarrow> [] | Some ls \<Rightarrow> ls)"

text \<open>The line of the cache file that records a completion under a serialised prompt.\<close>

definition cache_record :: "string \<Rightarrow> json \<Rightarrow> line" where
  "cache_record k v = Decoded (JObj [(''prompt'', JStr k), (''completion'', v)])"

subsection \<open>Example values\<close>

text \<open>A provider that answers every HTTP request with the same document.\<close>

definition answering :: "json \<Rightarrow> env" where
  "answering r = \<lparr>http_post = (\<lambda>n h u d. Body r), gemini_send = (\<lambda>n u h m. Inl ProviderError)\<rparr>"

text \<open>A provider that refuses every request.\<close>

definition refusing :: env where
  "refusing = \<lparr>http_post = (\<lambda>n h u d. Refused), gemini_send = (\<lambda>n u h m. Inl ProviderError)\<rparr>"

text \<open>A world with no file and nothing done yet.\<close>

definition fresh_world :: world where
  "fresh_world = \<lparr>fs = Map.empty, trace = []\<rparr>"

text \<open>A complete response of an OpenAI-style provider, with a text and a usage.\<close>

definition full_response :: "string \<Rightarrow> rat \<Rightarrow> rat \<Rightarrow> json" where
  "full_response text prompt_tokens completion_tokens =
     JObj [(''choices'', JArr [JObj [(''message'', JObj [(''content'', JStr text)])]]),
           (''usage'', JObj [(''prompt_tokens'', JNum prompt_tokens),
                             (''completion_tokens'', JNum completion_tokens)])]"

definition user_prompt :: "string \<Rightarrow> prompt" where
  "user_prompt text = [[(''role'', ''user''), (''content'', text)]]"

subsection \<open>Fields of a response\<close>

definition field :: "json \<Rightarrow> string \<Rightarrow> json option" where
  "field v k = (case v of JObj d \<Rightarrow> map_of d k | _ \<Rightarrow> None)"

definition first_item :: "json \<Rightarrow> json option" where
  "first_item v = (case v of JArr (x # xs) \<Rightarrow> Some x | _ \<Rightarrow> None)"

definition is_object :: "json \<Rightarrow> bool" where
  "is_object v = (case v of JObj d \<Rightarrow> True | _ \<Rightarrow> False)"

definition is_number :: "json \<Rightarrow> bool" where
  "is_number v = (case v of JNum n \<Rightarrow> True | JBool b \<Rightarrow> True | _ \<Rightarrow> False)"

text \<open>A cache miss, in the words of step 3 of the orchestrator.\<close>

definition cache_miss :: "string \<Rightarrow> cache \<Rightarrow> prompt \<Rightarrow> bool" where
  "cache_miss model_name c p =
     (case c (JStr (jsonify_prompt p)) of
        None \<Rightarrow> True
      | Some v \<Rightarrow> model_name \<in> fst ` set GPT_COSTS \<and> field v ''choices'' = None)"

text \<open>A complete entry has the response shape of its provider: \<^verbatim>\<open>choices[0].message.content\<close>
  and a number for each priced token type under \<^verbatim>\<open>usage\<close> for a cost-tracked model,
  \<^verbatim>\<open>content[0].text\<close> for Claude; any value is complete plain text for the others.\<close>

definition complete_entry :: "string \<Rightarrow> json \<Rightarrow> bool" where
  "complete_entry model_name v =
     (case map_of GPT_COSTS model_name of
        Some prices \<Rightarrow>
          Option.bind (field v ''choices'') (\<lambda>choices.
          Option.bind (first_item choices) (\<lambda>choice.
          Option.bind (field choice ''message'') (\<lambda>message. field message ''content''))) \<noteq> None
          \<and> list_all (\<lambda>tp. case Option.bind (field v ''usage'') (\<lambda>usage. field usage (fst tp)) of
                              None \<Rightarrow> False | Some n \<Rightarrow> is_number n) prices
      | None \<Rightarrow>
          model_name \<in> set CLAUDE_MODELS \<longrightarrow>
          Option.bind (field v ''content'') (\<lambda>content.
          Option.bind (first_item content) (\<lambda>block. field block ''text'')) \<noteq> None)"

subsection \<open>Cost\<close>

definition token_count :: "json \<Rightarrow> string \<Rightarrow> rat" where
  "token_count v token_type =
     (case Option.bind (field v ''usage'') (\<lambda>usage. field usage token_type) of
        Some (JNum n) \<Rightarrow> n
      | Some (JBool b) \<Rightarrow> (if b then 1 else 0)
      | _ \<Rightarrow> 0)"

definition cached_value :: "cache \<Rightarrow> prompt \<Rightarrow> json" where
  "cached_value c p = (case c (JStr (jsonify_prompt p)) of None \<Rightarrow> JNull | Some v \<Rightarrow> v)"

text \<open>The sum, over the prompts and the priced token types, of usage times price.\<close>

definition total_cost :: "(string \<times> rat) list \<Rightarrow> cache \<Rightarrow> prompt list \<Rightarrow> rat" where
  "total_cost prices c batch =
     sum_list (map (\<lambda>p. sum_list (map (\<lambda>tp. token_count (cached_value c p) (fst tp) * snd tp) prices))
                 batch)"

subsection \<open>Turns\<close>

definition role_of :: "message \<Rightarrow> string" where
  "role_of m = (case map_of m ''role'' of None \<Rightarrow> [] | Some r \<Rightarrow> r)"

definition content_of :: "message \<Rightarrow> string" where
  "content_of m = (case map_of m ''content'' of None \<Rightarrow> [] | Some c \<Rightarrow> c)"

text \<open>A well-formed turn has a role among the three of the data model, and a content.\<close>

definition turn_ok :: "message \<Rightarrow> bool" where
  "turn_ok m =
     (map_of m ''role'' \<in> {Some ''system'', Some ''user'', Some ''assistant''}
      \<and> map_of m ''content'' \<noteq> None)"

text \<open>The turn with a system role rewritten to user.\<close>

definition as_user :: "message \<Rightarrow> message" where
  "as_user m = (if map_of m ''role'' = Some ''system'' then dict_set m ''role'' ''user'' else m)"

text \<open>A turn seen as role and content.\<close>

definition turn_view :: "message \<Rightarrow> string \<times> string" where
  "turn_view m = (role_of m, content_of m)"

text \<open>A turn seen as role and content, system read as user.\<close>

definition normal_turn :: "message \<Rightarrow> string \<times> string" where
  "normal_turn m = (if role_of m = ''system'' then ''user'' else role_of m, content_of m)"

text \<open>Consecutive turns of one role merged into one, their contents joined by the separator
  \<open>sep\<close>.\<close>

fun merge_runs :: "string \<Rightarrow> (string \<times> string) list \<Rightarrow> (string \<times> string) list" where
  "merge_runs sep [] = []"
| "merge_runs sep [x] = [x]"
| "merge_runs sep ((r1, c1) # (r2, c2) # rest) =
     (if r1 = r2 then merge_runs sep ((r1, c1 @ sep @ c2) # rest)
      else (r1, c1) # merge_runs sep ((r2, c2) # rest))"

section \<open>Properties\<close>

subsection \<open>Retrying\<close>

lemma retry_loop_success:
  "body s = (Inr r, s') \<Longrightarrow> retry_loop left k pause body s = (Inr r, s')"
  by (cases left) simp_all

lemma retry_success:
  "body s = (Inr r, s') \<Longrightarrow> retry n pause body s = (Inr r, s')"
  by (simp add: retry_def retry_loop_success)

lemma wrapper_no_messages:
  "model_call_wrapper env model_name model_url (PyBatch []) generation_config parallel_model_calls w
     = (Inr (Some []), PyBatch [], w)"
  unfolding model_call_wrapper_def
  by (rule retry_success) (simp add: model_call_wrapper_attempt_def py_truthy_def)

subsection \<open>The wrapper on an empty batch and on an unknown model\<close>

text \<open>
  Claim C10.  For an empty batch of messages \<open>model_call_wrapper\<close> returns the empty list at
  once, whatever the model name is (a known one, an unknown one, even a value that is no
  string), the URL, the generation config and the parallelism flag: no adapter is chosen
  and the world, with its trace of network calls and waits, is as before.
\<close>

theorem model_call_wrapper_empty_batch:
  "model_call_wrapper env model_name model_url (PyBatch []) generation_config parallel_model_calls w
     = (Inr (Some []), PyBatch [], w)"
  unfolding model_call_wrapper_def
  by (rule retry_success) (simp add: model_call_wrapper_attempt_def py_truthy_def)

text \<open>
  Claim C2.  For a batch that is not empty and a model name that is no key of \<open>GPT_COSTS\<close>,
  contains neither \<open>gemini\<close> nor \<open>gemma\<close> once lowered, and is not in \<open>CLAUDE_MODELS\<close>,
  \<open>model_call_wrapper\<close> returns \<open>None\<close> as a normal result, not an exception; the batch and
  the world are unchanged, so there was no network call and no wait.
\<close>

theorem model_call_wrapper_unknown_model:
  assumes "batch \<noteq> []"
    and "name \<notin> fst ` set GPT_COSTS"
    and "\<not> str_contains (lower name) ''gemini''"
    and "\<not> str_contains (lower name) ''gemma''"
    and "name \<notin> set CLAUDE_MODELS"
  shows "model_call_wrapper env (PyStr name) model_url (PyBatch batch) generation_config
           parallel_model_calls w
         = (Inr None, PyBatch batch, w)"
proof -
  have "\<not> dict_has GPT_COSTS name"
    using assms(2) by (simp add: dict_has_def map_of_eq_None_iff)
  then show ?thesis
    unfolding model_call_wrapper_def using assms
    by (intro retry_success) (simp add: model_call_wrapper_attempt_def py_truthy_def)
qed

theorem model_call_wrapper_unknown_model_witness:
  "\<forall>env w. model_call_wrapper env (PyStr ''Llama-3'') ''http://host''
      (PyBatch [[[(''role'', ''user''), (''content'', ''hi'')]]]) [] True w
   = (Inr None, PyBatch [[[(''role'', ''user''), (''content'', ''hi'')]]], w)"
proof (intro allI, rule model_call_wrapper_unknown_model)
  show "[[[(''role'', ''user''), (''content'', ''hi'')]]] \<noteq> ([] :: prompt list)" by simp
  show "''Llama-3'' \<notin> fst ` set GPT_COSTS" by (simp add: GPT_COSTS_def)
  show "\<not> str_contains (lower ''Llama-3'') ''gemini''" by code_simp
  show "\<not> str_contains (lower ''Llama-3'') ''gemma''" by code_simp
  show "''Llama-3'' \<notin> set CLAUDE_MODELS" by (simp add: CLAUDE_MODELS_def)
qed

subsection \<open>Generation without a cache\<close>

text \<open>
  Claim C1, which says that without a cache the whole batch is dispatched through the
  wrapper under the given model name and URL.  Here is what the function does for one
  prompt, the model \<open>gpt-4o\<close> and no cache: the wrapper receives the batch as its model
  name, so every one of its ten attempts raises \<open>TypeError\<close>, nothing is sent to any
  provider, and after nine waits the caller gets a \<open>RetryError\<close>.
\<close>

theorem cached_generate_no_cache_raises:
  "cached_generate env [[[(''role'', ''user''), (''content'', ''hi'')]]] ''gpt-4o'' ''http://host'' None
      cache_file [] False w
   = (Inl (RetryError TypeError), [[[(''role'', ''user''), (''content'', ''hi'')]]], None,
      w\<lparr>trace := trace w @ replicate 9 (WaitFixed 20)\<rparr>)"
  by (simp add: cached_generate_def reasoning_model_rewrite_def model_call_wrapper_def retry_def
       model_call_wrapper_attempt_def py_truthy_def bnd_def log_def numeral_eq_Suc)

subsection \<open>Dictionaries\<close>

lemma map_of_dict_set: "map_of (dict_set d k v) = (map_of d)(k \<mapsto> v)"
  by (induction d) (auto simp: fun_eq_iff)

lemma dict_get_Inr: "dict_get d k = Inr v \<longleftrightarrow> map_of d k = Some v"
  by (simp add: dict_get_def split: option.splits)

lemma dict_get_Some: "map_of d k = Some v \<Longrightarrow> dict_get d k = Inr v"
  by (simp add: dict_get_def)

subsection \<open>Preprocessing for Gemma\<close>

lemma py_last_snoc: "py_last (xs @ [x]) = Inr x"
  by (simp add: py_last_def)

lemma merge_runs_hd: "xs \<noteq> [] \<Longrightarrow> fst (hd (merge_runs sep xs)) = fst (hd xs)"
  by (induction sep xs rule: merge_runs.induct) auto

lemma merge_runs_Nil: "merge_runs sep xs = [] \<longleftrightarrow> xs = []"
  by (induction sep xs rule: merge_runs.induct) auto

lemma distinct_adj_merge_runs: "distinct_adj (map fst (merge_runs sep xs))"
proof (induction sep xs rule: merge_runs.induct)
  case (3 sep r1 c1 r2 c2 rest)
  have "fst (hd (merge_runs sep ((r2, c2) # rest))) = r2"
    using merge_runs_hd[of "(r2, c2) # rest" sep] by simp
  moreover have "merge_runs sep ((r2, c2) # rest) \<noteq> []"
    by (simp add: merge_runs_Nil)
  ultimately show ?case
    using 3 by (auto simp: distinct_adj_Cons hd_map)
qed simp_all


lemma combine_loop_merge:
  assumes "\<forall>m\<in>set rest. turn_ok m"
    and "map_of prev ''role'' = Some r" and "map_of prev ''content'' = Some c"
  shows "\<exists>out. fst (combine_loop rest i (pre @ [prev]) (Some r) shared inputs) = Inr (pre @ out)
           \<and> map turn_view out = merge_runs blank_line ((r, c) # map normal_turn rest)
           \<and> (\<forall>m\<in>set out. map_of m ''role'' \<noteq> None)"
  using assms
proof (induction rest arbitrary: i pre prev r c shared inputs)
  case Nil
  then show ?case by (simp add: turn_view_def role_of_def content_of_def)
next
  case (Cons m rest)
  from Cons.prems(1) obtain mr mc where mr: "map_of m ''role'' = Some mr" and mc: "map_of m ''content'' = Some mc"
    and mr3: "mr \<in> {''system'', ''user'', ''assistant''}"
    by (auto simp: turn_ok_def)
  have rest: "\<forall>m\<in>set rest. turn_ok m" using Cons.prems(1) by simp
  let ?cur = "if mr = ''system'' then ''user'' else mr"
  let ?msg = "if mr = ''system'' then [(''role'', ''user''), (''content'', mc)] else m"
  have nt: "normal_turn m = (?cur, mc)"
    using mr mc by (simp add: normal_turn_def role_of_def content_of_def)
  have msg_role: "map_of ?msg ''role'' = Some ?cur" and msg_content: "map_of ?msg ''content'' = Some mc"
    using mr mc by auto
  show ?case
  proof (cases "?cur = r")
    case True
    let ?merged = "dict_set prev ''content'' (c @ blank_line @ mc)"
    have m1: "map_of ?merged ''role'' = Some r" and m2: "map_of ?merged ''content'' = Some (c @ blank_line @ mc)"
      using Cons.prems by (simp_all add: map_of_dict_set)
    obtain out where out: "fst (combine_loop rest (Suc i) (pre @ [?merged]) (Some r) shared
              (case shared of None \<Rightarrow> inputs | Some j \<Rightarrow> inputs[j := ?merged])) = Inr (pre @ out)"
       "map turn_view out = merge_runs blank_line ((r, c @ blank_line @ mc) # map normal_turn rest)"
       "\<forall>m\<in>set out. map_of m ''role'' \<noteq> None"
      using Cons.IH[OF rest m1 m2] by blast
    have step: "combine_loop (m # rest) i (pre @ [prev]) (Some r) shared inputs
        = combine_loop rest (Suc i) (pre @ [?merged]) (Some r) shared
              (case shared of None \<Rightarrow> inputs | Some j \<Rightarrow> inputs[j := ?merged])"
      using True mr mc Cons.prems(2,3)
      by (auto simp: dict_get_Some bnd_def py_last_snoc)
    show ?thesis
      unfolding step using out True nt by auto
  next
    case False
    obtain out where out: "fst (combine_loop rest (Suc i) ((pre @ [prev]) @ [?msg]) (Some ?cur)
              (if mr = ''system'' then None else Some i) inputs) = Inr ((pre @ [prev]) @ out)"
       "map turn_view out = merge_runs blank_line ((?cur, mc) # map normal_turn rest)"
       "\<forall>m\<in>set out. map_of m ''role'' \<noteq> None"
      using Cons.IH[OF rest msg_role msg_content] by blast
    have step: "combine_loop (m # rest) i (pre @ [prev]) (Some r) shared inputs
        = combine_loop rest (Suc i) ((pre @ [prev]) @ [?msg]) (Some ?cur)
              (if mr = ''system'' then None else Some i) inputs"
      using False mr mc
      by (auto simp: dict_get_Some bnd_def)
    have "turn_view prev = (r, c)"
      using Cons.prems(2,3) by (simp add: turn_view_def role_of_def content_of_def)
    then show ?thesis
      unfolding step using out False nt Cons.prems(2) by auto
  qed
qed


lemma combine_loop_start:
  assumes "\<forall>m\<in>set messages. turn_ok m"
  shows "\<exists>out. fst (combine_loop messages 0 [] None None inputs) = Inr out
           \<and> map turn_view out = merge_runs blank_line (map normal_turn messages)
           \<and> (\<forall>m\<in>set out. map_of m ''role'' \<noteq> None)"
proof (cases messages)
  case Nil
  then show ?thesis by simp
next
  case (Cons m rest)
  from assms Cons obtain mr mc where mr: "map_of m ''role'' = Some mr" and mc: "map_of m ''content'' = Some mc"
    by (auto simp: turn_ok_def)
  have rest: "\<forall>m\<in>set rest. turn_ok m" using assms Cons by simp
  let ?cur = "if mr = ''system'' then ''user'' else mr"
  let ?msg = "if mr = ''system'' then [(''role'', ''user''), (''content'', mc)] else m"
  have nt: "normal_turn m = (?cur, mc)"
    using mr mc by (simp add: normal_turn_def role_of_def content_of_def)
  have msg_role: "map_of ?msg ''role'' = Some ?cur" and msg_content: "map_of ?msg ''content'' = Some mc"
    using mr mc by auto
  have step: "combine_loop (m # rest) 0 [] None None inputs
      = combine_loop rest (Suc 0) ([] @ [?msg]) (Some ?cur) (if mr = ''system'' then None else Some 0) inputs"
    using mr mc by (auto simp: dict_get_Some bnd_def)
  show ?thesis
    unfolding Cons step
    using combine_loop_merge[OF rest msg_role msg_content, of "Suc 0" "[]"] nt
    by auto
qed

lemma alternate_loop_append:
  assumes "0 < i"
    and "\<forall>m\<in>set xs. map_of m ''role'' \<noteq> None"
    and "map_of prev ''role'' \<noteq> None"
    and "distinct_adj (map role_of (prev # xs))"
  shows "alternate_loop xs i (pre @ [prev]) = Inr (pre @ [prev] @ xs)"
  using assms
proof (induction xs arbitrary: i pre prev)
  case Nil
  then show ?case by simp
next
  case (Cons m xs)
  from Cons.prems obtain r pr where r: "map_of m ''role'' = Some r" and pr: "map_of prev ''role'' = Some pr"
    by auto
  have ne: "r \<noteq> pr"
    using Cons.prems(4) r pr by (auto simp: role_of_def)
  have "alternate_loop (m # xs) i (pre @ [prev]) = alternate_loop xs (Suc i) ((pre @ [prev]) @ [m])"
    using Cons.prems(1) r pr ne by (simp add: dict_get_Some bnd_def py_last_snoc)
  also have "\<dots> = Inr ((pre @ [prev]) @ [m] @ xs)"
    using Cons.prems r by (intro Cons.IH) auto
  finally show ?case by simp
qed

lemma alternate_loop_start:
  assumes "\<forall>m\<in>set xs. map_of m ''role'' \<noteq> None"
    and "distinct_adj (map role_of xs)"
  shows "alternate_loop xs 0 [] =
           Inr ((if xs \<noteq> [] \<and> role_of (hd xs) \<noteq> ''user''
                 then [[(''role'', ''user''), (''content'', ''Hello'')]] else []) @ xs)"
proof (cases xs)
  case Nil
  then show ?thesis by simp
next
  case (Cons m rest)
  from assms Cons obtain r where r: "map_of m ''role'' = Some r" by auto
  let ?pre = "if r \<noteq> ''user'' then [[(''role'', ''user''), (''content'', ''Hello'')]] else []"
  have "alternate_loop (m # rest) 0 [] = alternate_loop rest (Suc 0) (?pre @ [m])"
    using r by (simp add: dict_get_Some bnd_def)
  also have "\<dots> = Inr (?pre @ [m] @ rest)"
    using assms Cons r by (intro alternate_loop_append) auto
  finally show ?thesis
    using Cons r by (simp add: role_of_def)
qed


lemma merge_runs_roles: "fst ` set (merge_runs sep xs) \<subseteq> fst ` set xs"
proof (induction sep xs rule: merge_runs.induct)
  case (3 sep r1 c1 r2 c2 rest)
  then show ?case by (auto split: if_splits) 
qed simp_all

lemma normal_turn_role:
  "turn_ok m \<Longrightarrow> fst (normal_turn m) \<in> {''user'', ''assistant''}"
  by (auto simp: turn_ok_def normal_turn_def role_of_def)

lemma process_gemma_messages_merged:
  assumes "\<forall>m\<in>set messages. turn_ok m"
  shows "(\<exists>out. fst (process_gemma_messages messages) = Inr out
      \<and> map turn_view out =
          (if messages \<noteq> [] \<and> fst (normal_turn (hd messages)) \<noteq> ''user''
           then [(''user'', ''Hello'')] else []) @ merge_runs blank_line (map normal_turn messages)
      \<and> (messages \<noteq> [] \<longrightarrow> role_of (hd out) = ''user'')
      \<and> distinct_adj (map role_of out)
      \<and> (\<forall>m\<in>set out. role_of m \<in> {''user'', ''assistant''}))
    \<and> (\<forall>a b c d.
         fst (process_gemma_messages
                [[(''role'', ''system''), (''content'', a)], [(''role'', ''system''), (''content'', b)],
                 [(''role'', ''assistant''), (''content'', c)], [(''role'', ''user''), (''content'', d)]])
         = Inr [[(''role'', ''user''), (''content'', a @ blank_line @ b)],
                [(''role'', ''assistant''), (''content'', c)],
                [(''role'', ''user''), (''content'', d)]])"
proof -
  obtain processed where p: "fst (combine_loop messages 0 [] None None messages) = Inr processed"
    and pv: "map turn_view processed = merge_runs blank_line (map normal_turn messages)"
    and pr: "\<forall>m\<in>set processed. map_of m ''role'' \<noteq> None"
    using combine_loop_start[OF assms] by blast
  have roles: "map role_of processed = map fst (merge_runs blank_line (map normal_turn messages))"
    using pv by (metis (no_types, lifting) map_map comp_def fst_conv turn_view_def map_eq_conv)
  have adj: "distinct_adj (map role_of processed)"
    by (simp add: roles distinct_adj_merge_runs)
  let ?pre = "if processed \<noteq> [] \<and> role_of (hd processed) \<noteq> ''user''
                 then [[(''role'', ''user''), (''content'', ''Hello'')]] else []"
  let ?out = "?pre @ processed"
  have res: "fst (process_gemma_messages messages) = Inr ?out"
    using p alternate_loop_start[OF pr adj]
    by (auto simp: process_gemma_messages_def split: prod.splits sum.splits)
  have ne: "processed = [] \<longleftrightarrow> messages = []"
    using pv merge_runs_Nil[of blank_line "map normal_turn messages"] by (metis map_is_Nil_conv)
  have hd_role: "messages \<noteq> [] \<Longrightarrow> role_of (hd processed) = fst (normal_turn (hd messages))"
  proof -
    assume m: "messages \<noteq> []"
    then have "processed \<noteq> []" using ne by simp
    then have "role_of (hd processed) = hd (map role_of processed)" by (simp add: hd_map)
    also have "\<dots> = fst (hd (merge_runs blank_line (map normal_turn messages)))"
      using m by (simp add: roles hd_map merge_runs_Nil)
    also have "\<dots> = fst (hd (map normal_turn messages))"
      using m by (simp add: merge_runs_hd)
    finally show ?thesis using m by (simp add: hd_map)
  qed
  have proc_roles: "\<forall>m\<in>set processed. role_of m \<in> {''user'', ''assistant''}"
  proof
    fix m assume "m \<in> set processed"
    then have "role_of m \<in> set (map role_of processed)" by simp
    then have "role_of m \<in> fst ` set (merge_runs blank_line (map normal_turn messages))"
      by (simp add: roles)
    then have "role_of m \<in> fst ` set (map normal_turn messages)"
      using merge_runs_roles by blast
    then obtain x where x: "x \<in> set messages" and rx: "role_of m = fst (normal_turn x)"
      by auto
    have "turn_ok x" using assms x by blast
    then show "role_of m \<in> {''user'', ''assistant''}"
      unfolding rx by (rule normal_turn_role)
  qed
  have v: "map turn_view ?out =
          (if messages \<noteq> [] \<and> fst (normal_turn (hd messages)) \<noteq> ''user''
           then [(''user'', ''Hello'')] else []) @ merge_runs blank_line (map normal_turn messages)"
    using pv ne hd_role by (auto simp: turn_view_def role_of_def content_of_def)
  have h: "messages \<noteq> [] \<longrightarrow> role_of (hd ?out) = ''user''"
    using ne by (auto simp: role_of_def)
  have a: "distinct_adj (map role_of ?out)"
    using adj by (auto simp: distinct_adj_Cons role_of_def hd_map)
  have r: "\<forall>m\<in>set ?out. role_of m \<in> {''user'', ''assistant''}"
    using proc_roles by (auto simp: role_of_def)
  have general: "\<exists>out. fst (process_gemma_messages messages) = Inr out
      \<and> map turn_view out =
          (if messages \<noteq> [] \<and> fst (normal_turn (hd messages)) \<noteq> ''user''
           then [(''user'', ''Hello'')] else []) @ merge_runs blank_line (map normal_turn messages)
      \<and> (messages \<noteq> [] \<longrightarrow> role_of (hd out) = ''user'')
      \<and> distinct_adj (map role_of out)
      \<and> (\<forall>m\<in>set out. role_of m \<in> {''user'', ''assistant''})"
    using res v h a r by blast
  have example: "\<forall>a b c d.
         fst (process_gemma_messages
                [[(''role'', ''system''), (''content'', a)], [(''role'', ''system''), (''content'', b)],
                 [(''role'', ''assistant''), (''content'', c)], [(''role'', ''user''), (''content'', d)]])
         = Inr [[(''role'', ''user''), (''content'', a @ blank_line @ b)],
                [(''role'', ''assistant''), (''content'', c)],
                [(''role'', ''user''), (''content'', d)]]"
    by (simp add: process_gemma_messages_def dict_get_def bnd_def py_last_def)
  show ?thesis using general example by blast
qed

text \<open>
  Claim C6, with the separator of the merged contents stated as the code has it: two newline
  characters, not one.  For a list of messages whose turns each have a role among
  \<open>system\<close>, \<open>user\<close> and \<open>assistant\<close> and a content, \<open>process_gemma_messages\<close> returns a
  list; seen as roles and contents it is the input with \<open>system\<close> read as \<open>user\<close> and every
  run of one role merged into one turn, the contents joined by two newline characters, after
  a \<open>Hello\<close> turn of the user when the input does not start with the user.  If the input is
  not empty the output starts with a user turn; no two consecutive turns have the same
  role; every role is \<open>user\<close> or \<open>assistant\<close>, so no system turn is left.  In particular
  \<open>[system, system, assistant, user]\<close> gives three turns, the first a user turn whose content
  is the two system contents with two newline characters between them.
\<close>

theorem process_gemma_messages_alternates:
  assumes "\<forall>m\<in>set messages. turn_ok m"
  shows "(\<exists>out. fst (process_gemma_messages messages) = Inr out
      \<and> map turn_view out =
          (if messages \<noteq> [] \<and> fst (normal_turn (hd messages)) \<noteq> ''user''
           then [(''user'', ''Hello'')] else [])
          @ merge_runs [CHR 0x0A, CHR 0x0A] (map normal_turn messages)
      \<and> (messages \<noteq> [] \<longrightarrow> role_of (hd out) = ''user'')
      \<and> distinct_adj (map role_of out)
      \<and> (\<forall>m\<in>set out. role_of m \<in> {''user'', ''assistant''}))
    \<and> (\<forall>a b c d.
         fst (process_gemma_messages
                [[(''role'', ''system''), (''content'', a)], [(''role'', ''system''), (''content'', b)],
                 [(''role'', ''assistant''), (''content'', c)], [(''role'', ''user''), (''content'', d)]])
         = Inr [[(''role'', ''user''), (''content'', a @ [CHR 0x0A, CHR 0x0A] @ b)],
                [(''role'', ''assistant''), (''content'', c)],
                [(''role'', ''user''), (''content'', d)]])"
  using process_gemma_messages_merged[OF assms] unfolding blank_line_def .

theorem process_gemma_messages_alternates_witness:
  "turn_ok [(''role'', ''assistant''), (''content'', ''a'')]
   \<and> turn_ok [(''role'', ''assistant''), (''content'', ''b'')]
   \<and> (\<exists>out. fst (process_gemma_messages
                    [[(''role'', ''assistant''), (''content'', ''a'')],
                     [(''role'', ''assistant''), (''content'', ''b'')]]) = Inr out
          \<and> map turn_view out
              = [(''user'', ''Hello''), (''assistant'', ''a'' @ [CHR 0x0A, CHR 0x0A] @ ''b'')])"
proof -
  let ?ms = "[[(''role'', ''assistant''), (''content'', ''a'')],
              [(''role'', ''assistant''), (''content'', ''b'')]] :: message list"
  have ok: "\<forall>m\<in>set ?ms. turn_ok m"
    by (simp add: turn_ok_def)
  have merged: "(if ?ms \<noteq> [] \<and> fst (normal_turn (hd ?ms)) \<noteq> ''user''
           then [(''user'', ''Hello'')] else [])
          @ merge_runs [CHR 0x0A, CHR 0x0A] (map normal_turn ?ms)
        = [(''user'', ''Hello''), (''assistant'', ''a'' @ [CHR 0x0A, CHR 0x0A] @ ''b'')]"
    by (simp add: normal_turn_def role_of_def content_of_def)
  from process_gemma_messages_alternates[OF ok] obtain out
    where o1: "fst (process_gemma_messages ?ms) = Inr out"
      and o2: "map turn_view out =
          (if ?ms \<noteq> [] \<and> fst (normal_turn (hd ?ms)) \<noteq> ''user''
           then [(''user'', ''Hello'')] else [])
          @ merge_runs [CHR 0x0A, CHR 0x0A] (map normal_turn ?ms)"
    by blast
  have o3: "map turn_view out
              = [(''user'', ''Hello''), (''assistant'', ''a'' @ [CHR 0x0A, CHR 0x0A] @ ''b'')]"
    using o2 merged by (rule trans)
  have t1: "turn_ok [(''role'', ''assistant''), (''content'', ''a'')]"
    and t2: "turn_ok [(''role'', ''assistant''), (''content'', ''b'')]"
    using ok by simp_all
  show ?thesis
    using t1 t2 o1 o3 by (intro conjI exI[of _ out])
qed

text \<open>
  Claim C6 as it is written joins the merged contents by a newline.  With one newline
  character as the separator that is not what the function returns: the two system turns
  \<open>a\<close> and \<open>b\<close> are merged into a user turn of four characters, \<open>a\<close>, two newlines and \<open>b\<close>.
\<close>

theorem process_gemma_messages_one_newline_counterexample:
  "\<exists>out. fst (process_gemma_messages
                [[(''role'', ''system''), (''content'', ''a'')],
                 [(''role'', ''system''), (''content'', ''b'')],
                 [(''role'', ''assistant''), (''content'', ''c'')],
                 [(''role'', ''user''), (''content'', ''d'')]]) = Inr out
      \<and> content_of (hd out) \<noteq> ''a'' @ [CHR 0x0A] @ ''b''
      \<and> content_of (hd out) = ''a'' @ [CHR 0x0A, CHR 0x0A] @ ''b''
      \<and> length (content_of (hd out)) = 4"
  by (simp add: process_gemma_messages_def dict_get_def bnd_def py_last_def blank_line_def
        content_of_def)

subsection \<open>What a call adds to the trace\<close>

lemma fixed_waits_append: "fixed_waits (xs @ ys) = fixed_waits xs @ fixed_waits ys"
  by (induction xs rule: fixed_waits.induct) simp_all

lemma only_adds_refl: "P [] \<Longrightarrow> only_adds P w w"
  unfolding only_adds_def by (rule exI[of _ "[]"]) simp

lemma only_adds_trans:
  assumes "only_adds P w w'" and "only_adds Q w' w''"
    and "\<And>a b. P a \<Longrightarrow> Q b \<Longrightarrow> R (a @ b)"
  shows "only_adds R w w''"
proof -
  from assms(1) obtain a where a: "w' = w\<lparr>trace := trace w @ a\<rparr>" "P a"
    by (auto simp: only_adds_def)
  from assms(2) obtain b where b: "w'' = w'\<lparr>trace := trace w' @ b\<rparr>" "Q b"
    by (auto simp: only_adds_def)
  have "w'' = w\<lparr>trace := trace w @ (a @ b)\<rparr>" using a b by simp
  then show ?thesis using assms(3)[OF a(2) b(2)] unfolding only_adds_def by blast
qed

lemma only_adds_log: "P [e] \<Longrightarrow> only_adds P w (log e w)"
  by (auto simp: only_adds_def log_def)

lemma no_fixed_wait_append:
  "no_fixed_wait a \<Longrightarrow> no_fixed_wait b \<Longrightarrow> no_fixed_wait (a @ b)"
  by (simp add: no_fixed_wait_def fixed_waits_append)

lemma quiet_trans:
  "only_adds no_fixed_wait w w' \<Longrightarrow> only_adds no_fixed_wait w' w'' \<Longrightarrow> only_adds no_fixed_wait w w''"
  by (rule only_adds_trans[where P = no_fixed_wait and Q = no_fixed_wait])
     (auto intro: no_fixed_wait_append)

lemma quiet_refl: "only_adds no_fixed_wait w w"
  by (simp add: only_adds_refl no_fixed_wait_def)

lemma quiet_fs: "only_adds P w w' \<Longrightarrow> fs w' = fs w"
  by (auto simp: only_adds_def)

text \<open>The retry loop keeps a relation that every attempt and every pause keep.\<close>

lemma retry_loop_keeps:
  assumes body: "\<And>s. R s (snd (body s))"
    and pause: "\<And>k s. R s (pause k s)"
    and trans: "\<And>a b c. R a b \<Longrightarrow> R b c \<Longrightarrow> R a c"
  shows "R s (snd (retry_loop left k pause body s))"
proof (induction left arbitrary: k s)
  case 0
  show ?case using body[of s] by (auto split: prod.splits sum.splits)
next
  case (Suc left)
  show ?case
  proof (cases "body s")
    case (Pair res s')
    have s': "R s s'" using body[of s] Pair by simp
    show ?thesis
    proof (cases res)
      case (Inl e)
      have "R s' (pause k s')" by (rule pause)
      moreover have "R (pause k s') (snd (retry_loop left (Suc k) pause body (pause k s')))"
        by (rule Suc.IH)
      ultimately show ?thesis using s' Pair Inl trans by (auto simp del: retry_loop.simps(2) simp add: retry_loop.simps(2)[of left k pause body s])
    next
      case (Inr r)
      then show ?thesis using s' Pair by simp
    qed
  qed
qed

lemma openai_attempt_world:
  "snd (openai_attempt env url data w) = log (HttpPost OPENAI_HEADER url data) w"
  by (simp add: openai_attempt_def Let_def split: http_reply.splits sum.splits)

lemma claude_attempt_world:
  "snd (claude_attempt env url data w) = log (HttpPost ANTHROPIC_HEADER url data) w"
  by (simp add: claude_attempt_def Let_def split: http_reply.splits sum.splits)

lemma openai_request_quiet: "only_adds no_fixed_wait w (snd (openai_request env url data w))"
  unfolding openai_request_def retry_def
proof (rule retry_loop_keeps[where R = "only_adds no_fixed_wait"])
  show "only_adds no_fixed_wait s (snd (openai_attempt env url data s))" for s
    by (simp add: openai_attempt_world only_adds_log no_fixed_wait_def)
  show "only_adds no_fixed_wait s (log (WaitRandomExponential k) s)" for k s
    by (simp add: only_adds_log no_fixed_wait_def)
qed (rule quiet_trans)

lemma claude_request_quiet: "only_adds no_fixed_wait w (snd (claude_request env url data w))"
  unfolding claude_request_def retry_def
proof (rule retry_loop_keeps[where R = "only_adds no_fixed_wait"])
  show "only_adds no_fixed_wait s (snd (claude_attempt env url data s))" for s
    by (simp add: claude_attempt_world only_adds_log no_fixed_wait_def)
  show "only_adds no_fixed_wait s (log (WaitRandomExponential k) s)" for k s
    by (simp add: only_adds_log no_fixed_wait_def)
qed (rule quiet_trans)

text \<open>A body that fails on every state and logs one request: the loop makes all its attempts.\<close>

lemma retry_loop_all_fail:
  assumes "\<And>w. \<exists>e. body w = (Inl e, log ev w)" and "is_post ev"
  shows "\<exists>e new. retry_loop left k (\<lambda>k. log (WaitRandomExponential k)) body w
                   = (Inl (RetryError e), w\<lparr>trace := trace w @ new\<rparr>)
               \<and> length (filter is_post new) = Suc left"
proof (induction left arbitrary: k w)
  case 0
  obtain e where "body w = (Inl e, log ev w)" using assms(1) by blast
  then have "retry_loop 0 k (\<lambda>k. log (WaitRandomExponential k)) body w
      = (Inl (RetryError e), w\<lparr>trace := trace w @ [ev]\<rparr>)"
    by (simp add: log_def)
  then show ?case using assms(2) by (intro exI[of _ e] exI[of _ "[ev]"]) simp
next
  case (Suc left)
  obtain e where e: "body w = (Inl e, log ev w)" using assms(1) by blast
  let ?w' = "log (WaitRandomExponential k) (log ev w)"
  obtain e' new where n: "retry_loop left (Suc k) (\<lambda>k. log (WaitRandomExponential k)) body ?w'
                   = (Inl (RetryError e'), ?w'\<lparr>trace := trace ?w' @ new\<rparr>)"
     "length (filter is_post new) = Suc left"
    using Suc.IH by blast
  have "retry_loop (Suc left) k (\<lambda>k. log (WaitRandomExponential k)) body w
      = (Inl (RetryError e'), w\<lparr>trace := trace w @ (ev # WaitRandomExponential k # new)\<rparr>)"
    using e n(1) by (simp add: log_def)
  then show ?case using assms(2) n(2)
    by (intro exI[of _ e'] exI[of _ "ev # WaitRandomExponential k # new"]) simp
qed


lemma openai_get_response_quiet:
  "only_adds no_fixed_wait w (snd (snd (openai_get_response env name url gc m w)))"
  using openai_request_quiet[of w env url "request_data name (json_of_msgs m) gc"]
  by (cases "openai_request env url (request_data name (json_of_msgs m) gc) w")
     (simp add: openai_get_response_def)

lemma claude_get_response_quiet:
  "only_adds no_fixed_wait w (snd (snd (claude_get_response env name url gc m w)))"
proof (cases "case m of
              Turns p \<Rightarrow> (case system_to_user p of (err, p') \<Rightarrow> (err, Turns p'))
            | Chars s \<Rightarrow> (if s = [] then None else Some TypeError, Chars s)")
  case (Pair err m')
  show ?thesis
  proof (cases err)
    case None
    then show ?thesis
      using Pair claude_request_quiet[of w env url "request_data name (json_of_msgs m') gc"]
      by (cases "claude_request env url (request_data name (json_of_msgs m') gc) w")
         (simp add: claude_get_response_def)
  next
    case (Some e)
    then show ?thesis using Pair by (simp add: claude_get_response_def quiet_refl)
  qed
qed

lemma gemini_get_response_quiet:
  "only_adds no_fixed_wait w (snd (snd (gemini_get_response env url m w)))"
  by (auto simp: gemini_get_response_def quiet_refl only_adds_log no_fixed_wait_def
           split: msgs.splits prod.splits option.splits list.splits sum.splits)

lemma gemma_get_response_quiet:
  "only_adds no_fixed_wait w (snd (snd (gemma_get_response env name url m w)))"
  by (auto simp: gemma_get_response_def Let_def quiet_refl only_adds_log no_fixed_wait_def
           split: msgs.splits prod.splits sum.splits http_reply.splits)

lemma run_sequential_keeps:
  assumes g: "\<And>m w. R w (snd (snd (g m w)))"
    and refl: "\<And>w. R w w"
    and trans: "\<And>a b c. R a b \<Longrightarrow> R b c \<Longrightarrow> R a c"
  shows "R w (snd (snd (run_sequential g ms w)))"
proof (induction ms arbitrary: w)
  case Nil
  show ?case by (simp add: refl)
next
  case (Cons m ms)
  obtain res m' w' where r: "g m w = (res, m', w')" by (cases "g m w") auto
  have w': "R w w'" using g[of w m] r by simp
  show ?case
  proof (cases res)
    case (Inl e)
    then show ?thesis using r w' by simp
  next
    case (Inr x)
    have "R w' (snd (snd (run_sequential g ms w')))" by (rule Cons.IH)
    then have "R w (snd (snd (run_sequential g ms w')))" using w' trans by blast
    then show ?thesis using r Inr by (auto split: prod.splits sum.splits)
  qed
qed

lemma run_parallel_keeps:
  assumes g: "\<And>m w. R w (snd (snd (g m w)))"
    and refl: "\<And>w. R w w"
    and trans: "\<And>a b c. R a b \<Longrightarrow> R b c \<Longrightarrow> R a c"
  shows "R w (snd (snd (run_parallel g ms w)))"
proof (induction ms arbitrary: w)
  case Nil
  show ?case by (simp add: refl)
next
  case (Cons m ms)
  obtain res m' w' where r: "g m w = (res, m', w')" by (cases "g m w") auto
  have w': "R w w'" using g[of w m] r by simp
  have "R w' (snd (snd (run_parallel g ms w')))" by (rule Cons.IH)
  then have "R w (snd (snd (run_parallel g ms w')))" using w' trans by blast
  then show ?case using r by (auto split: prod.splits)
qed

lemma get_batch_responses_quiet:
  assumes "\<And>m w. only_adds no_fixed_wait w (snd (snd (g m w)))"
  shows "only_adds no_fixed_wait w (snd (snd (get_batch_responses par g ms w)))"
  unfolding get_batch_responses_def
  using run_sequential_keeps[where R = "only_adds no_fixed_wait" and g = g, OF assms quiet_refl quiet_trans]
        run_parallel_keeps[where R = "only_adds no_fixed_wait" and g = g, OF assms quiet_refl quiet_trans]
  by simp

lemma run_adapter_quiet:
  assumes "\<And>m w. only_adds no_fixed_wait w (snd (snd (g m w)))"
  shows "only_adds no_fixed_wait w
           (snd (snd (case get_batch_responses par g ms w of
                        (res, ms', w') \<Rightarrow> (bnd res (\<lambda>rs. Inr (Some rs)), py_store b ms', w'))))"
  using get_batch_responses_quiet[of g w par ms, OF assms]
  by (cases "get_batch_responses par g ms w") simp

lemma model_call_wrapper_attempt_quiet:
  "only_adds no_fixed_wait (snd st)
     (snd (snd (model_call_wrapper_attempt env model_name url gc par st)))"
proof (cases st)
  case (Pair b w)
  show ?thesis
  proof (cases model_name)
    case (PyBatch x)
    then show ?thesis by (simp add: Pair model_call_wrapper_attempt_def quiet_refl)
  next
    case (PyStr name)
    show ?thesis
      unfolding Pair PyStr model_call_wrapper_attempt_def
      using run_adapter_quiet[where g = "openai_get_response env name url gc" and w = w and par = par and ms = "py_iter b" and b = b,
              OF openai_get_response_quiet]
            run_adapter_quiet[where g = "gemini_get_response env url" and w = w and par = par and ms = "py_iter b" and b = b,
              OF gemini_get_response_quiet]
            run_adapter_quiet[where g = "gemma_get_response env name url" and w = w and par = par and ms = "py_iter b" and b = b,
              OF gemma_get_response_quiet]
            run_adapter_quiet[where g = "claude_get_response env name url gc" and w = w and par = par and ms = "py_iter b" and b = b,
              OF claude_get_response_quiet]
      by (simp add: quiet_refl Let_def)
  qed
qed


lemma retry_loop_fixed_waits:
  fixes body :: "pyval \<times> world \<Rightarrow> (error + 'a) \<times> pyval \<times> world"
  assumes body: "\<And>st. only_adds no_fixed_wait (snd st) (snd (snd (body st)))"
  shows "\<exists>new m. snd (snd (retry_loop left k (\<lambda>k st. (fst st, log (WaitFixed 20) (snd st))) body (b, w)))
                    = w\<lparr>trace := trace w @ new\<rparr>
               \<and> m \<le> left \<and> fixed_waits new = replicate m 20"
proof (induction left arbitrary: k b w)
  case 0
  obtain res b' w' where r: "body (b, w) = (res, b', w')" by (cases "body (b, w)") auto
  from body[of "(b, w)"] r obtain a where a: "w' = w\<lparr>trace := trace w @ a\<rparr>" "fixed_waits a = []"
    by (auto simp: only_adds_def no_fixed_wait_def)
  have "snd (snd (retry_loop 0 k (\<lambda>k st. (fst st, log (WaitFixed 20) (snd st))) body (b, w))) = w'"
    using r by (cases res) simp_all
  then show ?case using a by (intro exI[of _ a] exI[of _ 0]) simp
next
  case (Suc left)
  obtain res b' w' where r: "body (b, w) = (res, b', w')" by (cases "body (b, w)") auto
  from body[of "(b, w)"] r obtain a where a: "w' = w\<lparr>trace := trace w @ a\<rparr>" "fixed_waits a = []"
    by (auto simp: only_adds_def no_fixed_wait_def)
  show ?case
  proof (cases res)
    case (Inr x)
    then have "snd (snd (retry_loop (Suc left) k (\<lambda>k st. (fst st, log (WaitFixed 20) (snd st))) body (b, w))) = w'"
      using r by simp
    then show ?thesis using a by (intro exI[of _ a] exI[of _ 0]) simp
  next
    case (Inl e)
    let ?w1 = "log (WaitFixed 20) w'"
    obtain new m where n: "snd (snd (retry_loop left (Suc k) (\<lambda>k st. (fst st, log (WaitFixed 20) (snd st))) body (b', ?w1)))
                    = ?w1\<lparr>trace := trace ?w1 @ new\<rparr>" "m \<le> left" "fixed_waits new = replicate m 20"
      using Suc.IH by blast
    have "snd (snd (retry_loop (Suc left) k (\<lambda>k st. (fst st, log (WaitFixed 20) (snd st))) body (b, w)))
        = w\<lparr>trace := trace w @ (a @ WaitFixed 20 # new)\<rparr>"
      using r Inl n(1) a(1) by (simp add: log_def)
    moreover have "fixed_waits (a @ WaitFixed 20 # new) = replicate (Suc m) 20"
      using a(2) n(3) by (simp add: fixed_waits_append)
    ultimately show ?thesis using n(2)
      by (intro exI[of _ "a @ WaitFixed 20 # new"] exI[of _ "Suc m"]) simp
  qed
qed

lemma model_call_wrapper_waits:
  "\<exists>new m. snd (snd (model_call_wrapper env model_name url batch gc par w)) = w\<lparr>trace := trace w @ new\<rparr>
      \<and> m \<le> 9 \<and> fixed_waits new = replicate m 20"
  unfolding model_call_wrapper_def retry_def
  using retry_loop_fixed_waits[where body = "model_call_wrapper_attempt env model_name url gc par"
          and left = 9 and k = 1 and b = batch and w = w, OF model_call_wrapper_attempt_quiet]
  by simp

lemma model_call_wrapper_fs:
  "fs (snd (snd (model_call_wrapper env model_name url batch gc par w))) = fs w"
  using model_call_wrapper_waits[of env model_name url batch gc par w] by auto

subsection \<open>The attempts of a retried function\<close>

lemma before_attempt_shift:
  "before_attempt p body (Suc i) s
     = before_attempt (\<lambda>j. p (Suc j)) body i (p (Suc 0) (snd (body s)))"
  by (induction i) simp_all

lemma retry_loop_characterised:
  "\<exists>n\<le>left.
      (\<forall>i<n. \<exists>e. fst (body (before_attempt (\<lambda>j. pause (j + k)) body i s)) = Inl e)
    \<and> (case body (before_attempt (\<lambda>j. pause (j + k)) body n s) of
          (Inr r, s') \<Rightarrow> retry_loop left (Suc k) pause body s = (Inr r, s')
        | (Inl e, s') \<Rightarrow> n = left \<and> retry_loop left (Suc k) pause body s = (Inl (RetryError e), s'))"
proof (induction left arbitrary: k s)
  case 0
  show ?case
    by (rule exI[of _ 0]) (simp split: prod.splits sum.splits)
next
  case (Suc left)
  obtain res s1 where b: "body s = (res, s1)" by (cases "body s") auto
  show ?case
  proof (cases res)
    case (Inr r)
    then show ?thesis using b by (intro exI[of _ 0]) simp
  next
    case (Inl e)
    let ?s2 = "pause (Suc k) s1"
    let ?B = "\<lambda>i. before_attempt (\<lambda>j. pause (j + Suc k)) body i ?s2"
    from Suc.IH[of "Suc k" ?s2] obtain n where n: "n \<le> left"
      and fails: "\<forall>i<n. \<exists>e. fst (body (?B i)) = Inl e"
      and last: "case body (?B n) of
          (Inr r, s') \<Rightarrow> retry_loop left (Suc (Suc k)) pause body ?s2 = (Inr r, s')
        | (Inl e, s') \<Rightarrow> n = left \<and> retry_loop left (Suc (Suc k)) pause body ?s2 = (Inl (RetryError e), s')"
      by (elim exE conjE)
    have shift: "before_attempt (\<lambda>j. pause (j + k)) body (Suc i) s = ?B i" for i
      using before_attempt_shift[of "\<lambda>j. pause (j + k)" body i s] b by simp
    have step: "retry_loop (Suc left) (Suc k) pause body s
                  = retry_loop left (Suc (Suc k)) pause body ?s2"
      using b Inl by simp
    have f': "\<forall>i<Suc n. \<exists>e. fst (body (before_attempt (\<lambda>j. pause (j + k)) body i s)) = Inl e"
    proof (intro allI impI)
      fix i assume "i < Suc n"
      show "\<exists>e. fst (body (before_attempt (\<lambda>j. pause (j + k)) body i s)) = Inl e"
      proof (cases i)
        case 0
        then show ?thesis using b Inl by simp
      next
        case (Suc i')
        then have "i' < n" using \<open>i < Suc n\<close> by simp
        then show ?thesis using fails shift[of i'] Suc by simp
      qed
    qed
    have l': "case body (before_attempt (\<lambda>j. pause (j + k)) body (Suc n) s) of
          (Inr r, s') \<Rightarrow> retry_loop (Suc left) (Suc k) pause body s = (Inr r, s')
        | (Inl e, s') \<Rightarrow> Suc n = Suc left
             \<and> retry_loop (Suc left) (Suc k) pause body s = (Inl (RetryError e), s')"
      unfolding shift step using last by (simp split: prod.splits sum.splits)
    show ?thesis
      using n f' l' by (intro exI[of _ "Suc n"]) simp
  qed
qed



lemma retry_characterised:
  "\<exists>n<10.
      (\<forall>i<n. \<exists>e. fst (body (before_attempt pause body i s)) = Inl e)
    \<and> (case body (before_attempt pause body n s) of
          (Inr r, s') \<Rightarrow> retry 10 pause body s = (Inr r, s')
        | (Inl e, s') \<Rightarrow> n = 9 \<and> retry 10 pause body s = (Inl (RetryError e), s'))"
proof -
  have r: "retry 10 pause body s = retry_loop 9 (Suc 0) pause body s"
    by (simp add: retry_def)
  have p: "(\<lambda>j. pause (j + 0)) = pause" by simp
  from retry_loop_characterised[of 9 body pause 0 s] obtain n where n: "n \<le> 9"
    and fails: "\<forall>i<n. \<exists>e. fst (body (before_attempt pause body i s)) = Inl e"
    and last: "case body (before_attempt pause body n s) of
          (Inr r, s') \<Rightarrow> retry_loop 9 (Suc 0) pause body s = (Inr r, s')
        | (Inl e, s') \<Rightarrow> n = 9 \<and> retry_loop 9 (Suc 0) pause body s = (Inl (RetryError e), s')"
    unfolding p by (elim exE conjE)
  have "n < 10" using n by simp
  then show ?thesis
    unfolding r using fails last by (intro exI[of _ n] conjI)
qed

lemma retry_all_fail_last:
  assumes "\<forall>s. \<exists>e. fst (body s) = Inl e"
  shows "\<exists>e s'. body (before_attempt pause body 9 s) = (Inl e, s')
             \<and> retry 10 pause body s = (Inl (RetryError e), s')"
proof -
  from retry_characterised[of body pause s] obtain n where
    last: "case body (before_attempt pause body n s) of
          (Inr r, s') \<Rightarrow> retry 10 pause body s = (Inr r, s')
        | (Inl e, s') \<Rightarrow> n = 9 \<and> retry 10 pause body s = (Inl (RetryError e), s')"
    by (elim exE conjE)
  obtain e where e: "fst (body (before_attempt pause body n s)) = Inl e"
    using assms by (elim allE exE)
  then obtain s' where b: "body (before_attempt pause body n s) = (Inl e, s')"
    by (cases "body (before_attempt pause body n s)") simp
  have "n = 9 \<and> retry 10 pause body s = (Inl (RetryError e), s')"
    using last unfolding b by simp
  then show ?thesis using b by (intro exI[of _ e] exI[of _ s']) simp
qed

lemma log_wait_random_exponential:
  "(\<lambda>k. log (WaitRandomExponential k)) = wait_random_exponential"
  by (intro ext) (simp add: log_def wait_random_exponential_def)

lemma log_wait_fixed:
  "(\<lambda>k st. (fst st, log (WaitFixed d) (snd st))) = (\<lambda>k. wait_fixed d)"
  by (intro ext) (simp add: log_def wait_fixed_def)

lemma openai_request_last_failure:
  assumes "\<forall>w. \<exists>e. fst (openai_attempt env url data w) = Inl e"
  shows "\<exists>e new. openai_request env url data w = (Inl (RetryError e), w\<lparr>trace := trace w @ new\<rparr>)
          \<and> length (filter is_post new) = 10
          \<and> fst (openai_attempt env url data
                   (before_attempt wait_random_exponential (openai_attempt env url data) 9 w)) = Inl e"
proof -
  have "\<exists>e. openai_attempt env url data w = (Inl e, log (HttpPost OPENAI_HEADER url data) w)" for w
    using assms openai_attempt_world[of env url data w] by (metis prod.collapse)
  from retry_loop_all_fail[of "openai_attempt env url data" "HttpPost OPENAI_HEADER url data" 9 1 w, OF this]
  obtain e new where a: "openai_request env url data w = (Inl (RetryError e), w\<lparr>trace := trace w @ new\<rparr>)"
      and b: "length (filter is_post new) = 10"
    by (auto simp: openai_request_def retry_def)
  from retry_all_fail_last[OF assms, of wait_random_exponential w]
  obtain e' s' where c: "openai_attempt env url data
             (before_attempt wait_random_exponential (openai_attempt env url data) 9 w) = (Inl e', s')"
      and d: "openai_request env url data w = (Inl (RetryError e'), s')"
    unfolding openai_request_def log_wait_random_exponential by (elim exE conjE)
  have "e' = e" using a d by simp
  then show ?thesis using a b c by (intro exI[of _ e] exI[of _ new]) simp
qed

lemma claude_request_last_failure:
  assumes "\<forall>w. \<exists>e. fst (claude_attempt env url data w) = Inl e"
  shows "\<exists>e new. claude_request env url data w = (Inl (RetryError e), w\<lparr>trace := trace w @ new\<rparr>)
          \<and> length (filter is_post new) = 10
          \<and> fst (claude_attempt env url data
                   (before_attempt wait_random_exponential (claude_attempt env url data) 9 w)) = Inl e"
proof -
  have "\<exists>e. claude_attempt env url data w = (Inl e, log (HttpPost ANTHROPIC_HEADER url data) w)" for w
    using assms claude_attempt_world[of env url data w] by (metis prod.collapse)
  from retry_loop_all_fail[of "claude_attempt env url data" "HttpPost ANTHROPIC_HEADER url data" 9 1 w, OF this]
  obtain e new where a: "claude_request env url data w = (Inl (RetryError e), w\<lparr>trace := trace w @ new\<rparr>)"
      and b: "length (filter is_post new) = 10"
    by (auto simp: claude_request_def retry_def)
  from retry_all_fail_last[OF assms, of wait_random_exponential w]
  obtain e' s' where c: "claude_attempt env url data
             (before_attempt wait_random_exponential (claude_attempt env url data) 9 w) = (Inl e', s')"
      and d: "claude_request env url data w = (Inl (RetryError e'), s')"
    unfolding claude_request_def log_wait_random_exponential by (elim exE conjE)
  have "e' = e" using a d by simp
  then show ?thesis using a b c by (intro exI[of _ e] exI[of _ new]) simp
qed

lemma model_call_wrapper_attempts:
  "\<exists>n<10.
      (\<forall>i<n. \<exists>e. fst (model_call_wrapper_attempt env model_name url gc par
                         (before_attempt (\<lambda>k. wait_fixed 20)
                            (model_call_wrapper_attempt env model_name url gc par) i (batch, w))) = Inl e)
    \<and> (case model_call_wrapper_attempt env model_name url gc par
               (before_attempt (\<lambda>k. wait_fixed 20)
                  (model_call_wrapper_attempt env model_name url gc par) n (batch, w)) of
          (Inr r, st) \<Rightarrow> model_call_wrapper env model_name url batch gc par w = (Inr r, st)
        | (Inl e, st) \<Rightarrow>
            n = 9 \<and> model_call_wrapper env model_name url batch gc par w = (Inl (RetryError e), st))"
  unfolding model_call_wrapper_def log_wait_fixed
  by (rule retry_characterised)

lemma concat_replicate_snoc: "concat (replicate i xs) @ xs = xs @ concat (replicate i xs)"
  by (induction i) simp_all

text \<open>
  Claim C7.  When every attempt of \<open>openai_request\<close> fails (the post is refused, the body is
  no JSON, or it has no \<open>choices\<close>), the call ends in a \<open>RetryError\<close>, and it has added
  exactly ten HTTP posts to the trace: each attempt posts once, so there were ten attempts,
  no more and no fewer.  The error inside the \<open>RetryError\<close> is the failure of the tenth
  attempt, the one that starts after nine failed attempts and their waits.  The same holds
  for \<open>claude_request\<close>.

  A call of \<open>model_call_wrapper\<close> makes \<open>n + 1\<close> attempts for some \<open>n\<close> below 10, so at
  most ten.  Attempt \<open>i + 1\<close> starts in the state \<open>before_attempt \<dots> i\<close>: the state the
  attempt before it left, after a fixed wait of 20.  The attempts before the last one
  failed.  If the last attempt returns, the call returns its result and its state; if it
  fails, it was the tenth and the call raises a \<open>RetryError\<close> of that failure.  The fixed
  waits the call adds to the trace are at most nine, each of 20.
\<close>

theorem retry_bounds:
  "((\<forall>w. \<exists>e. fst (openai_attempt env url data w) = Inl e) \<longrightarrow>
      (\<exists>e new. openai_request env url data w = (Inl (RetryError e), w\<lparr>trace := trace w @ new\<rparr>)
          \<and> length (filter is_post new) = 10
          \<and> fst (openai_attempt env url data
                   (before_attempt wait_random_exponential (openai_attempt env url data) 9 w)) = Inl e))
   \<and> ((\<forall>w. \<exists>e. fst (claude_attempt env url data w) = Inl e) \<longrightarrow>
      (\<exists>e new. claude_request env url data w = (Inl (RetryError e), w\<lparr>trace := trace w @ new\<rparr>)
          \<and> length (filter is_post new) = 10
          \<and> fst (claude_attempt env url data
                   (before_attempt wait_random_exponential (claude_attempt env url data) 9 w)) = Inl e))
   \<and> (\<exists>new m. snd (snd (model_call_wrapper env model_name url batch gc par w))
                  = w\<lparr>trace := trace w @ new\<rparr>
          \<and> m \<le> 9 \<and> fixed_waits new = replicate m 20)
   \<and> (\<exists>n<10.
        (\<forall>i<n. \<exists>e. fst (model_call_wrapper_attempt env model_name url gc par
                           (before_attempt (\<lambda>k. wait_fixed 20)
                              (model_call_wrapper_attempt env model_name url gc par) i (batch, w)))
                      = Inl e)
      \<and> (case model_call_wrapper_attempt env model_name url gc par
                 (before_attempt (\<lambda>k. wait_fixed 20)
                    (model_call_wrapper_attempt env model_name url gc par) n (batch, w)) of
            (Inr r, st) \<Rightarrow> model_call_wrapper env model_name url batch gc par w = (Inr r, st)
          | (Inl e, st) \<Rightarrow>
              n = 9 \<and> model_call_wrapper env model_name url batch gc par w
                        = (Inl (RetryError e), st)))"
proof (intro conjI impI)
  assume "\<forall>w. \<exists>e. fst (openai_attempt env url data w) = Inl e"
  then show "\<exists>e new. openai_request env url data w = (Inl (RetryError e), w\<lparr>trace := trace w @ new\<rparr>)
          \<and> length (filter is_post new) = 10
          \<and> fst (openai_attempt env url data
                   (before_attempt wait_random_exponential (openai_attempt env url data) 9 w)) = Inl e"
    by (rule openai_request_last_failure)
next
  assume "\<forall>w. \<exists>e. fst (claude_attempt env url data w) = Inl e"
  then show "\<exists>e new. claude_request env url data w = (Inl (RetryError e), w\<lparr>trace := trace w @ new\<rparr>)
          \<and> length (filter is_post new) = 10
          \<and> fst (claude_attempt env url data
                   (before_attempt wait_random_exponential (claude_attempt env url data) 9 w)) = Inl e"
    by (rule claude_request_last_failure)
next
  show "\<exists>new m. snd (snd (model_call_wrapper env model_name url batch gc par w))
                  = w\<lparr>trace := trace w @ new\<rparr>
          \<and> m \<le> 9 \<and> fixed_waits new = replicate m 20"
    by (rule model_call_wrapper_waits)
next
  show "\<exists>n<10.
        (\<forall>i<n. \<exists>e. fst (model_call_wrapper_attempt env model_name url gc par
                           (before_attempt (\<lambda>k. wait_fixed 20)
                              (model_call_wrapper_attempt env model_name url gc par) i (batch, w)))
                      = Inl e)
      \<and> (case model_call_wrapper_attempt env model_name url gc par
                 (before_attempt (\<lambda>k. wait_fixed 20)
                    (model_call_wrapper_attempt env model_name url gc par) n (batch, w)) of
            (Inr r, st) \<Rightarrow> model_call_wrapper env model_name url batch gc par w = (Inr r, st)
          | (Inl e, st) \<Rightarrow>
              n = 9 \<and> model_call_wrapper env model_name url batch gc par w
                        = (Inl (RetryError e), st))"
    by (rule model_call_wrapper_attempts)
qed

text \<open>The witness: a provider that refuses every request.  Both request functions end in
  a \<open>RetryError\<close> of the connection error after ten posts.  The wrapper, called for a Gemma
  model, whose adapter posts once per attempt, makes ten attempts with nine waits of 20
  between them and raises the \<open>RetryError\<close> of the tenth connection error.\<close>

theorem retry_bounds_witness:
  "(\<forall>url data w.
       fst (openai_attempt refusing url data w) = Inl ConnectionError
     \<and> fst (claude_attempt refusing url data w) = Inl ConnectionError
     \<and> (\<exists>new. openai_request refusing url data w
                 = (Inl (RetryError ConnectionError), w\<lparr>trace := trace w @ new\<rparr>)
            \<and> length (filter is_post new) = 10)
     \<and> (\<exists>new. claude_request refusing url data w
                 = (Inl (RetryError ConnectionError), w\<lparr>trace := trace w @ new\<rparr>)
            \<and> length (filter is_post new) = 10))
   \<and> model_call_wrapper refusing (PyStr ''gemma'') ''http://host'' (PyBatch [user_prompt ''hi''])
        [] False fresh_world
      = (Inl (RetryError ConnectionError), PyBatch [user_prompt ''hi''],
         \<lparr>fs = Map.empty,
          trace =
            concat (replicate 9
              [HttpPost NoHeader ''http://host''
                 (JObj [(''model'', JStr ''gemma''),
                        (''messages'', JArr [JObj [(''role'', JStr ''user''), (''content'', JStr ''hi'')]]),
                        (''temperature'', JNum 0), (''max_tokens'', JNum 512)]),
               WaitFixed 20])
            @ [HttpPost NoHeader ''http://host''
                 (JObj [(''model'', JStr ''gemma''),
                        (''messages'', JArr [JObj [(''role'', JStr ''user''), (''content'', JStr ''hi'')]]),
                        (''temperature'', JNum 0), (''max_tokens'', JNum 512)])]\<rparr>)"
proof (intro conjI allI)
  fix url data w
  have o: "fst (openai_attempt refusing url data w') = Inl ConnectionError" for w'
    by (simp add: openai_attempt_def refusing_def)
  have c: "fst (claude_attempt refusing url data w') = Inl ConnectionError" for w'
    by (simp add: claude_attempt_def refusing_def)
  show "fst (openai_attempt refusing url data w) = Inl ConnectionError" by (rule o)
  show "fst (claude_attempt refusing url data w) = Inl ConnectionError" by (rule c)
  have oh: "\<forall>w. \<exists>e. fst (openai_attempt refusing url data w) = Inl e" using o by blast
  have ch: "\<forall>w. \<exists>e. fst (claude_attempt refusing url data w) = Inl e" using c by blast
  note rb = retry_bounds[of refusing url data w]
  from rb[THEN conjunct1, THEN mp, OF oh]
  show "\<exists>new. openai_request refusing url data w
                 = (Inl (RetryError ConnectionError), w\<lparr>trace := trace w @ new\<rparr>)
            \<and> length (filter is_post new) = 10"
    unfolding o by auto
  from rb[THEN conjunct2, THEN conjunct1, THEN mp, OF ch]
  show "\<exists>new. claude_request refusing url data w
                 = (Inl (RetryError ConnectionError), w\<lparr>trace := trace w @ new\<rparr>)
            \<and> length (filter is_post new) = 10"
    unfolding c by auto
next
  let ?b = "PyBatch [user_prompt ''hi'']"
  let ?P = "HttpPost NoHeader ''http://host''
                 (JObj [(''model'', JStr ''gemma''),
                        (''messages'', JArr [JObj [(''role'', JStr ''user''), (''content'', JStr ''hi'')]]),
                        (''temperature'', JNum 0), (''max_tokens'', JNum 512)])"
  let ?A = "model_call_wrapper_attempt refusing (PyStr ''gemma'') ''http://host'' [] False"
  have low: "lower ''gemma'' = ''gemma''" by code_simp
  have A: "?A (?b, w) = (Inl ConnectionError, ?b, w\<lparr>trace := trace w @ [?P]\<rparr>)" for w
    by (simp add: model_call_wrapper_attempt_def py_truthy_def dict_has_def GPT_COSTS_def low
          get_batch_responses_def py_iter_def py_store_def gemma_get_response_def
          process_gemma_messages_def user_prompt_def dict_get_def bnd_def json_of_messages_def
          refusing_def log_def Let_def)
  have B: "before_attempt (\<lambda>k. wait_fixed 20) ?A i (?b, fresh_world)
             = (?b, \<lparr>fs = Map.empty, trace = concat (replicate i [?P, WaitFixed 20])\<rparr>)" for i
    by (induction i) (simp_all add: A wait_fixed_def fresh_world_def concat_replicate_snoc)
  note rb = retry_bounds[where env = refusing and w = fresh_world and model_name = "PyStr ''gemma''"
      and url = "''http://host''" and batch = ?b and gc = "[]" and par = False and data = JNull]
  from rb[THEN conjunct2, THEN conjunct2, THEN conjunct2] obtain n where
    last: "case ?A (before_attempt (\<lambda>k. wait_fixed 20) ?A n (?b, fresh_world)) of
            (Inr r, st) \<Rightarrow> model_call_wrapper refusing (PyStr ''gemma'') ''http://host'' ?b [] False fresh_world = (Inr r, st)
          | (Inl e, st) \<Rightarrow>
              n = 9 \<and> model_call_wrapper refusing (PyStr ''gemma'') ''http://host'' ?b [] False fresh_world
                        = (Inl (RetryError e), st)"
    by (elim exE conjE)
  have n9: "n = 9"
    using last unfolding B A by simp
  show "model_call_wrapper refusing (PyStr ''gemma'') ''http://host'' ?b [] False fresh_world
      = (Inl (RetryError ConnectionError), ?b,
         \<lparr>fs = Map.empty, trace = concat (replicate 9 [?P, WaitFixed 20]) @ [?P]\<rparr>)"
    using last unfolding n9 B A by simp
qed

subsection \<open>The cache file\<close>

lemma replay_append:
  "replay (ls @ ls') c = bnd (replay ls c) (\<lambda>c'. replay ls' c')"
proof (induction ls arbitrary: c)
  case Nil
  show ?case by (simp add: bnd_def)
next
  case (Cons l ls)
  show ?case
  proof (cases l)
    case Undecodable
    then show ?thesis by (simp add: bnd_def)
  next
    case (Decoded j)
    then show ?thesis
      using Cons.IH by (simp add: bnd_def split: sum.splits)
  qed
qed

lemma replay_record:
  "replay [cache_record k v] c = Inr (c(JStr k \<mapsto> v))"
  by (simp add: cache_record_def bnd_def dict_get_def)

lemma load_cache_file_lines:
  "load_cache_file w file = replay (file_lines w file) Map.empty"
  by (simp add: load_cache_file_def file_lines_def split: option.splits)

lemma file_lines_append_line:
  "file_lines (append_line file l w) file = file_lines w file @ [l]"
  by (simp add: file_lines_def append_line_def)

lemma trace_append_line: "trace (append_line file l w) = trace w"
  by (simp add: append_line_def)

lemma load_append_record:
  assumes "load_cache_file w file = Inr c"
  shows "load_cache_file (append_line file (cache_record k v) w) file = Inr (c(JStr k \<mapsto> v))"
  using assms
  unfolding load_cache_file_lines file_lines_append_line replay_append replay_record
  by (simp add: bnd_def)

lemma persist_lines:
  "file_lines (snd (persist file kvs (c, w))) file
     = file_lines w file @ map (\<lambda>e. cache_record (jsonify_prompt (fst e)) (snd e)) kvs"
proof (induction kvs arbitrary: c w)
  case Nil
  show ?case by simp
next
  case (Cons e kvs)
  obtain p r where e: "e = (p, r)" by (cases e)
  show ?case
    unfolding e using Cons.IH
    by (simp add: Let_def file_lines_append_line cache_record_def)
qed

lemma persist_load:
  assumes "load_cache_file w file = Inr c"
  shows "load_cache_file (snd (persist file kvs (c, w))) file = Inr (fst (persist file kvs (c, w)))"
  using assms
proof (induction kvs arbitrary: c w)
  case Nil
  then show ?case by simp
next
  case (Cons e kvs)
  obtain p r where e: "e = (p, r)" by (cases e)
  let ?k = "jsonify_prompt p"
  have "load_cache_file (append_line file (cache_record ?k r) w) file = Inr (c(JStr ?k \<mapsto> r))"
    using Cons.prems by (rule load_append_record)
  then have ih: "load_cache_file
          (snd (persist file kvs (c(JStr ?k \<mapsto> r), append_line file (cache_record ?k r) w))) file
        = Inr (fst (persist file kvs (c(JStr ?k \<mapsto> r), append_line file (cache_record ?k r) w)))"
    by (rule Cons.IH)
  have step: "persist file (e # kvs) (c, w)
        = persist file kvs (c(JStr ?k \<mapsto> r), append_line file (cache_record ?k r) w)"
    unfolding e cache_record_def by (simp add: Let_def)
  show ?case unfolding step by (rule ih)
qed

lemma load_cache_file_fs:
  "fs w' = fs w \<Longrightarrow> load_cache_file w' file = load_cache_file w file"
  by (simp add: load_cache_file_def)

lemma file_lines_fs:
  "fs w' = fs w \<Longrightarrow> file_lines w' file = file_lines w file"
  by (simp add: file_lines_def)

lemma dispatch_misses_file:
  assumes "load_cache_file w file = Inr c"
    and "dispatch_misses env batch name url c file gc par misses w = (r, b, c'', w')"
  shows "\<exists>c' entries. c'' = Some c' \<and> load_cache_file w' file = Inr c'
          \<and> file_lines w' file
              = file_lines w file @ map (\<lambda>e. cache_record (jsonify_prompt (fst e)) (snd e)) entries"
proof -
  obtain res arg w1 where m: "model_call_wrapper env (PyStr name) url
             (PyBatch (map (\<lambda>i. batch ! i) misses)) gc par w = (res, arg, w1)"
    by (cases "model_call_wrapper env (PyStr name) url (PyBatch (map (\<lambda>i. batch ! i) misses)) gc par w") auto
  have fs1: "fs w1 = fs w"
    using model_call_wrapper_fs[of env "PyStr name" url "PyBatch (map (\<lambda>i. batch ! i) misses)" gc par w] m
    by simp
  have l1: "load_cache_file w1 file = Inr c"
    using assms(1) load_cache_file_fs[OF fs1] by simp
  have same: "\<exists>entries. file_lines w1 file
              = file_lines w file @ map (\<lambda>e. cache_record (jsonify_prompt (fst e)) (snd e)) entries"
    using file_lines_fs[OF fs1] by (intro exI[of _ "[]"]) simp
  show ?thesis
  proof (cases res)
    case (Inl e)
    then show ?thesis
      using assms(2) m l1 same by (auto simp: dispatch_misses_def Let_def)
  next
    case (Inr ro)
    show ?thesis
    proof (cases ro)
      case None
      then show ?thesis
        using assms(2) m l1 same Inr by (auto simp: dispatch_misses_def Let_def)
    next
      case (Some rs)
      let ?kvs = "zip (batch_of arg) rs"
      obtain c2 w2 where p: "persist file ?kvs (c, w1) = (c2, w2)"
        by (cases "persist file ?kvs (c, w1)") auto
      have "load_cache_file w2 file = Inr c2"
        using persist_load[OF l1, of "?kvs"] p by simp
      moreover have "file_lines w2 file
           = file_lines w file @ map (\<lambda>e. cache_record (jsonify_prompt (fst e)) (snd e)) ?kvs"
        using persist_lines[of "file" "?kvs" c w1] p file_lines_fs[OF fs1] by simp
      moreover have "c'' = Some c2 \<and> w' = w2"
        using assms(2) m Inr Some p by (auto simp: dispatch_misses_def Let_def split: if_splits)
      ultimately show ?thesis by blast
    qed
  qed
qed

lemma cached_generate_file:
  assumes "load_cache_file w file = Inr c"
    and "cached_generate env batch name url (Some c) file gc par w = (r, b, c'', w')"
  shows "\<exists>c' entries. c'' = Some c' \<and> load_cache_file w' file = Inr c'
          \<and> file_lines w' file
              = file_lines w file @ map (\<lambda>e. cache_record (jsonify_prompt (fst e)) (snd e)) entries"
proof -
  have same: "\<exists>entries. file_lines w file
              = file_lines w file @ map (\<lambda>e. cache_record (jsonify_prompt (fst e)) (snd e)) entries"
    by (intro exI[of _ "[]"]) simp
  obtain err batch1 config1 where rw: "reasoning_model_rewrite name batch gc = (err, batch1, config1)"
    by (cases "reasoning_model_rewrite name batch gc") auto
  show ?thesis
  proof (cases err)
    case (Some e)
    then show ?thesis using assms rw same by (auto simp: cached_generate_def)
  next
    case None
    show ?thesis
    proof (cases "find_misses name c batch1 0")
      case (Inl e)
      then show ?thesis using assms rw None same by (auto simp: cached_generate_def)
    next
      case (Inr misses)
      then have "dispatch_misses env batch1 name url c file config1 par misses w = (r, b, c'', w')"
        using assms(2) rw None by (simp add: cached_generate_def)
      from dispatch_misses_file[OF assms(1) this] show ?thesis .
    qed
  qed
qed

subsection \<open>A provider that always answers\<close>

lemma openai_request_answered:
  assumes "py_contains ''choices'' r = Inr True"
  shows "openai_request (answering r) url data w = (Inr r, log (HttpPost OPENAI_HEADER url data) w)"
  unfolding openai_request_def
  by (rule retry_success) (simp add: openai_attempt_def answering_def assms)

lemma openai_get_response_answered:
  assumes "py_contains ''choices'' r = Inr True"
  shows "openai_get_response (answering r) name url gc m w
           = (Inr r, m, log (HttpPost OPENAI_HEADER url (request_data name (json_of_msgs m) gc)) w)"
  by (simp add: openai_get_response_def openai_request_answered[OF assms])

lemma run_sequential_answered:
  assumes "py_contains ''choices'' r = Inr True"
  shows "run_sequential (openai_get_response (answering r) name url gc) ms w
           = (Inr (map (\<lambda>m. r) ms), ms,
              w\<lparr>trace := trace w @ map (\<lambda>m. HttpPost OPENAI_HEADER url (request_data name (json_of_msgs m) gc)) ms\<rparr>)"
  by (induction ms arbitrary: w) (simp_all add: openai_get_response_answered[OF assms] log_def)

lemma run_parallel_answered:
  assumes "py_contains ''choices'' r = Inr True"
  shows "run_parallel (openai_get_response (answering r) name url gc) ms w
           = (Inr (map (\<lambda>m. r) ms), ms,
              w\<lparr>trace := trace w @ map (\<lambda>m. HttpPost OPENAI_HEADER url (request_data name (json_of_msgs m) gc)) ms\<rparr>)"
  by (induction ms arbitrary: w) (simp_all add: openai_get_response_answered[OF assms] log_def bnd_def)

lemma concat_turns_of: "concat (map turns_of (map Turns b)) = b"
  by (induction b) simp_all

lemma model_call_wrapper_answered:
  assumes "py_contains ''choices'' r = Inr True" and "dict_has GPT_COSTS name"
  shows "model_call_wrapper (answering r) (PyStr name) url (PyBatch batch) gc par w
           = (Inr (Some (map (\<lambda>p. r) batch)), PyBatch batch,
              w\<lparr>trace := trace w @ map (\<lambda>p. HttpPost OPENAI_HEADER url
                                               (request_data name (json_of_messages p) gc)) batch\<rparr>)"
proof (cases "batch = []")
  case True
  then show ?thesis by (simp add: wrapper_no_messages)
next
  case False
  show ?thesis
    unfolding model_call_wrapper_def
    by (rule retry_success)
       (simp add: model_call_wrapper_attempt_def py_truthy_def False assms(2) Let_def
          get_batch_responses_def run_sequential_answered[OF assms(1)]
          run_parallel_answered[OF assms(1)] py_iter_def py_store_def concat_turns_of bnd_def
          comp_def json_of_msgs_def)
qed

lemma write_back_same: "write_back is (map (\<lambda>i. b ! i) is) b = b"
  by (induction "is") simp_all

lemma zip_map_same: "zip (map f xs) (map g xs) = map (\<lambda>x. (f x, g x)) xs"
  by (induction xs) simp_all

lemma dispatch_misses_answered:
  assumes "py_contains ''choices'' r = Inr True" and "dict_has GPT_COSTS name"
  shows "dispatch_misses (answering r) batch name url c file gc par misses w
           = (case persist file (map (\<lambda>i. (batch ! i, r)) misses)
                     (c, w\<lparr>trace := trace w @ map (\<lambda>i. HttpPost OPENAI_HEADER url
                                               (request_data name (json_of_messages (batch ! i)) gc)) misses\<rparr>) of
                (c', w') \<Rightarrow>
                  (bnd (extract_loop name c' batch [] 0) (\<lambda>r. Inr (Texts (fst r) (snd r))),
                   batch, Some c', w'))"
  by (simp add: dispatch_misses_def model_call_wrapper_answered[OF assms] write_back_same
        zip_map_same comp_def)


lemma full_response_choices: "py_contains ''choices'' (full_response t a b) = Inr True"
  by (simp add: full_response_def dict_has_def)

text \<open>
  Claim C5.  A file that does not exist loads as the empty mapping.  If the lines \<open>ls\<close>
  load as \<open>c\<close>, then \<open>ls\<close> followed by the record of \<open>v\<close> under the key \<open>k\<close> loads as \<open>c\<close>
  with \<open>k\<close> mapped to \<open>v\<close>: the record is recovered under exactly its key, and a later
  record of a key replaces an earlier one.  If \<open>ls\<close> loads, then \<open>ls\<close> followed by a line
  that does not decode fails with a decode error, whatever comes after.  And if the cache
  given to \<open>cached_generate\<close> is what the cache file loads as, then after the call,
  however it ended, the file is the old file followed by records of serialised prompts
  and completions, and it loads as the cache the call left.
\<close>

theorem cache_file_round_trip:
  "(fs w cache_file = None \<longrightarrow> load_cache_file w cache_file = Inr Map.empty)
   \<and> (\<forall>ls c k v. replay ls Map.empty = Inr c \<longrightarrow>
         replay (ls @ [cache_record k v]) Map.empty = Inr (c(JStr k \<mapsto> v)))
   \<and> (\<forall>ls ls' c. replay ls Map.empty = Inr c \<longrightarrow>
         replay (ls @ Undecodable # ls') Map.empty = Inl JSONDecodeError)
   \<and> (\<forall>c r b c'' w'.
         load_cache_file w cache_file = Inr c
         \<and> cached_generate env batch name url (Some c) cache_file gc par w = (r, b, c'', w') \<longrightarrow>
         (\<exists>c' entries. c'' = Some c' \<and> load_cache_file w' cache_file = Inr c'
            \<and> file_lines w' cache_file
                = file_lines w cache_file
                  @ map (\<lambda>e. cache_record (jsonify_prompt (fst e)) (snd e)) entries))"
proof (intro conjI allI impI)
  assume "fs w cache_file = None"
  then show "load_cache_file w cache_file = Inr Map.empty"
    by (simp add: load_cache_file_def)
next
  fix ls c k v assume "replay ls Map.empty = Inr c"
  then show "replay (ls @ [cache_record k v]) Map.empty = Inr (c(JStr k \<mapsto> v))"
    unfolding replay_append replay_record by (simp add: bnd_def)
next
  fix ls ls' c assume "replay ls Map.empty = Inr c"
  then show "replay (ls @ Undecodable # ls') Map.empty = Inl JSONDecodeError"
    by (simp add: replay_append bnd_def)
next
  fix c r b c'' w'
  assume "load_cache_file w cache_file = Inr c
         \<and> cached_generate env batch name url (Some c) cache_file gc par w = (r, b, c'', w')"
  then show "\<exists>c' entries. c'' = Some c' \<and> load_cache_file w' cache_file = Inr c'
            \<and> file_lines w' cache_file
                = file_lines w cache_file
                  @ map (\<lambda>e. cache_record (jsonify_prompt (fst e)) (snd e)) entries"
    using cached_generate_file by blast
qed

theorem cache_file_round_trip_witness:
  "fs fresh_world ''cache'' = None
   \<and> load_cache_file fresh_world ''cache'' = Inr Map.empty
   \<and> replay [cache_record ''k'' JNull] Map.empty = Inr [JStr ''k'' \<mapsto> JNull]
   \<and> replay ([cache_record ''k'' JNull] @ [cache_record ''k'' (JStr ''v'')]) Map.empty
        = Inr [JStr ''k'' \<mapsto> JStr ''v'']
   \<and> replay ([cache_record ''k'' JNull] @ Undecodable # []) Map.empty = Inl JSONDecodeError
   \<and> (\<exists>r b c' w'.
        cached_generate (answering (full_response ''ok'' 100 50)) [user_prompt ''hi''] ''gpt-4o''
          ''http://host'' (Some Map.empty) ''cache'' [] False fresh_world = (r, b, Some c', w')
        \<and> load_cache_file w' ''cache'' = Inr c'
        \<and> file_lines w' ''cache''
            = [cache_record (jsonify_prompt (user_prompt ''hi'')) (full_response ''ok'' 100 50)])"
proof -
  let ?env = "answering (full_response ''ok'' 100 50)"
  note rt = cache_file_round_trip[of fresh_world "''cache''" ?env "[user_prompt ''hi'']" "''gpt-4o''"
               "''http://host''" "[]" False]
  note rt1 = rt[THEN conjunct1]
  note rt2 = rt[THEN conjunct2, THEN conjunct1, rule_format]
  note rt3 = rt[THEN conjunct2, THEN conjunct2, THEN conjunct1, rule_format]
  note rt4 = rt[THEN conjunct2, THEN conjunct2, THEN conjunct2, rule_format]
  have a: "fs fresh_world ''cache'' = None" by (simp add: fresh_world_def)
  have b: "load_cache_file fresh_world ''cache'' = Inr Map.empty"
    using rt1 a by (rule mp)
  have r0: "replay [] Map.empty = Inr Map.empty" by simp
  have c: "replay [cache_record ''k'' JNull] Map.empty = Inr [JStr ''k'' \<mapsto> JNull]"
    using rt2[OF r0, of "''k''" JNull] by simp
  have d: "replay ([cache_record ''k'' JNull] @ [cache_record ''k'' (JStr ''v'')]) Map.empty
        = Inr [JStr ''k'' \<mapsto> JStr ''v'']"
    using rt2[OF c, of "''k''" "JStr ''v''"] by simp
  have e: "replay ([cache_record ''k'' JNull] @ Undecodable # []) Map.empty = Inl JSONDecodeError"
    using rt3[OF c, of "[]"] .
  obtain r bb c'' w' where run:
    "cached_generate ?env [user_prompt ''hi''] ''gpt-4o'' ''http://host'' (Some Map.empty) ''cache'' []
       False fresh_world = (r, bb, c'', w')"
    by (cases "cached_generate ?env [user_prompt ''hi''] ''gpt-4o'' ''http://host'' (Some Map.empty)
                 ''cache'' [] False fresh_world") auto
  from rt4[OF conjI[OF b run]] obtain c' entries
    where c': "c'' = Some c'" "load_cache_file w' ''cache'' = Inr c'"
    by blast
  have gpt: "dict_has GPT_COSTS ''gpt-4o''" by (simp add: dict_has_def GPT_COSTS_def)
  have cg: "cached_generate ?env [user_prompt ''hi''] ''gpt-4o'' ''http://host'' (Some Map.empty) ''cache'' []
       False fresh_world
     = dispatch_misses ?env [user_prompt ''hi''] ''gpt-4o'' ''http://host'' Map.empty ''cache'' [] False [0]
         fresh_world"
    by (simp add: cached_generate_def reasoning_model_rewrite_def bnd_def)
  have "w' = snd (snd (snd (dispatch_misses ?env [user_prompt ''hi''] ''gpt-4o'' ''http://host''
                 Map.empty ''cache'' [] False [0] fresh_world)))"
    using run cg by simp
  then have f: "file_lines w' ''cache''
            = [cache_record (jsonify_prompt (user_prompt ''hi'')) (full_response ''ok'' 100 50)]"
    by (simp add: dispatch_misses_answered[OF full_response_choices gpt] Let_def file_lines_def
          append_line_def fresh_world_def cache_record_def)
  have "\<exists>r b c' w'.
        cached_generate ?env [user_prompt ''hi''] ''gpt-4o''
          ''http://host'' (Some Map.empty) ''cache'' [] False fresh_world = (r, b, Some c', w')
        \<and> load_cache_file w' ''cache'' = Inr c'
        \<and> file_lines w' ''cache''
            = [cache_record (jsonify_prompt (user_prompt ''hi'')) (full_response ''ok'' 100 50)]"
    using run c' f by blast
  then show ?thesis using a b c d e by (intro conjI)
qed

end
